theory Spec2Isabelle
  imports Main
begin

section \<open>Bytes and UTF-8\<close>

text \<open>
  A Go \<^verbatim>\<open>string\<close> and a \<^verbatim>\<open>[]byte\<close> are sequences of bytes: \<^typ>\<open>string\<close>, a list of 8-bit
  characters. \<open>byte c\<close> is the numeric value of a byte.
\<close>

abbreviation dquote :: char where "dquote \<equiv> CHR 0x22"
abbreviation bslash :: char where "bslash \<equiv> CHR 0x5C"
abbreviation byte :: "char \<Rightarrow> nat" where "byte c \<equiv> of_char c"

text \<open>
  \<^verbatim>\<open>unicode/utf8\<close>: \<open>utf8_size p\<close> is the size that \<^verbatim>\<open>utf8.DecodeRune(p)\<close> returns for a
  well-formed encoding at the head of \<open>p\<close>, and \<open>0\<close> where DecodeRune returns
  \<^verbatim>\<open>(RuneError, 1)\<close> (or \<^verbatim>\<open>(RuneError, 0)\<close> on the empty input). \<open>lead_size\<close>, \<open>accept_lo\<close>
  and \<open>accept_hi\<close> are the tables \<^verbatim>\<open>first\<close> and \<^verbatim>\<open>acceptRanges\<close>.
\<close>

definition is_cont :: "char \<Rightarrow> bool" where
  "is_cont c = (0x80 \<le> byte c \<and> byte c \<le> 0xBF)"

definition lead_size :: "nat \<Rightarrow> nat" where
  "lead_size b = (if b < 0x80 then 1 else if b < 0xC2 then 0 else if b < 0xE0 then 2
                  else if b < 0xF0 then 3 else if b < 0xF5 then 4 else 0)"

definition accept_lo :: "nat \<Rightarrow> nat" where
  "accept_lo b = (if b = 0xE0 then 0xA0 else if b = 0xF0 then 0x90 else 0x80)"

definition accept_hi :: "nat \<Rightarrow> nat" where
  "accept_hi b = (if b = 0xED then 0x9F else if b = 0xF4 then 0x8F else 0xBF)"

definition utf8_size :: "string \<Rightarrow> nat" where
  "utf8_size p = (case p of [] \<Rightarrow> 0 | p0 # ps \<Rightarrow>
     (let sz = lead_size (byte p0) in
      if sz \<le> 1 then sz
      else if length p < sz then 0
      else if byte (p ! 1) < accept_lo (byte p0) \<or> accept_hi (byte p0) < byte (p ! 1) then 0
      else if sz \<le> 2 then 2
      else if \<not> is_cont (p ! 2) then 0
      else if sz \<le> 3 then 3
      else if \<not> is_cont (p ! 3) then 0
      else 4))"

text \<open>The encoding of U+FFFD, the replacement character.\<close>

definition replacement_char :: string where
  "replacement_char = [CHR 0xEF, CHR 0xBF, CHR 0xBD]"

text \<open>\<^verbatim>\<open>utf8.EncodeRune\<close>, on a code point given as a natural number.\<close>

definition encode_rune :: "nat \<Rightarrow> string" where
  "encode_rune r =
     (if r \<le> 0x7F then [char_of r]
      else if r \<le> 0x7FF then [char_of (0xC0 + r div 64), char_of (0x80 + r mod 64)]
      else if 0x10FFFF < r \<or> (0xD800 \<le> r \<and> r \<le> 0xDFFF) then replacement_char
      else if r \<le> 0xFFFF then
        [char_of (0xE0 + r div 4096), char_of (0x80 + (r div 64) mod 64), char_of (0x80 + r mod 64)]
      else
        [char_of (0xF0 + r div 262144), char_of (0x80 + (r div 4096) mod 64),
         char_of (0x80 + (r div 64) mod 64), char_of (0x80 + r mod 64)])"

text \<open>
  \<open>utf8_valid\<close> is \<^verbatim>\<open>utf8.ValidString\<close>. \<open>utf8_coerce s\<close> is \<open>s\<close> with every byte that
  does not start a well-formed encoding replaced by U+FFFD: what a string becomes on its way
  through \<^verbatim>\<open>json.Marshal\<close> and back.
\<close>

fun utf8_valid :: "string \<Rightarrow> bool" where
  "utf8_valid [] = True"
| "utf8_valid (b # src) =
     (if byte b < 0x80 then utf8_valid src
      else
        (let sz = utf8_size (b # src) in
         if sz = 0 then False else utf8_valid (drop (sz - 1) src)))"

fun utf8_coerce :: "string \<Rightarrow> string" where
  "utf8_coerce [] = []"
| "utf8_coerce (b # src) =
     (if byte b < 0x80 then b # utf8_coerce src
      else
        (let sz = utf8_size (b # src) in
         if sz = 0 then replacement_char @ utf8_coerce src
         else take sz (b # src) @ utf8_coerce (drop (sz - 1) src)))"


section \<open>The fragment of \<^verbatim>\<open>encoding/json\<close> that the codec calls\<close>

text \<open>
  \<^verbatim>\<open>models.go\<close> builds every codec on \<^verbatim>\<open>json.Marshal\<close> and \<^verbatim>\<open>json.Unmarshal\<close> of the Go
  standard library. They are modelled here on bytes, for the Go types the codec uses them at:
  \<^verbatim>\<open>string\<close>, \<^verbatim>\<open>[]string\<close>, \<^verbatim>\<open>map[string]string\<close>, and structs whose fields are pointers to
  \<^verbatim>\<open>string\<close>, \<^verbatim>\<open>bool\<close> and \<^verbatim>\<open>int\<close>.
\<close>

subsection \<open>Encoding a string: \<^verbatim>\<open>appendString\<close> with \<^verbatim>\<open>escapeHTML = true\<close>\<close>

text \<open>
  The bytes \<^verbatim>\<open>json.Marshal\<close> writes for a string: ASCII bytes other than the quote, the
  backslash, \<^verbatim>\<open><\<close>, \<^verbatim>\<open>>\<close>, \<^verbatim>\<open>&\<close> and the control characters are copied, and so is every
  well-formed multi-byte encoding but U+2028 and U+2029; the rest is escaped, and a byte that
  starts no well-formed encoding is written as \<^verbatim>\<open>\ufffd\<close>. Backspace and form feed are written
  \<^verbatim>\<open>\b\<close> and \<^verbatim>\<open>\f\<close>, as Go 1.22 and later do; earlier versions write \<^verbatim>\<open>\u0008\<close> and
  \<^verbatim>\<open>\u000c\<close>, which decode to the same bytes.
\<close>

definition html_safe :: "char \<Rightarrow> bool" where
  "html_safe c = (0x20 \<le> byte c \<and> byte c < 0x80 \<and> c \<noteq> dquote \<and> c \<noteq> bslash
                  \<and> c \<noteq> CHR ''<'' \<and> c \<noteq> CHR ''>'' \<and> c \<noteq> CHR ''&'')"

definition hex_digit :: "nat \<Rightarrow> char" where
  "hex_digit n = ''0123456789abcdef'' ! n"

definition escape_ascii :: "char \<Rightarrow> string" where
  "escape_ascii b =
     (if b = bslash \<or> b = dquote then [bslash, b]
      else if b = CHR 0x08 then [bslash, CHR ''b'']
      else if b = CHR 0x0C then [bslash, CHR ''f'']
      else if b = CHR 0x0A then [bslash, CHR ''n'']
      else if b = CHR 0x0D then [bslash, CHR ''r'']
      else if b = CHR 0x09 then [bslash, CHR ''t'']
      else bslash # ''u00'' @ [hex_digit (byte b div 16), hex_digit (byte b mod 16)])"

text \<open>U+2028 and U+2029, which the encoder always escapes.\<close>

definition line_sep :: string where "line_sep = [CHR 0xE2, CHR 0x80, CHR 0xA8]"
definition para_sep :: string where "para_sep = [CHR 0xE2, CHR 0x80, CHR 0xA9]"

fun appendString_body :: "string \<Rightarrow> string" where
  "appendString_body [] = []"
| "appendString_body (b # src) =
     (if byte b < 0x80 then
        (if html_safe b then [b] else escape_ascii b) @ appendString_body src
      else
        (let sz = utf8_size (b # src) in
         if sz = 0 then (bslash # ''ufffd'') @ appendString_body src
         else if take sz (b # src) = line_sep then
           (bslash # ''u2028'') @ appendString_body (drop (sz - 1) src)
         else if take sz (b # src) = para_sep then
           (bslash # ''u2029'') @ appendString_body (drop (sz - 1) src)
         else take sz (b # src) @ appendString_body (drop (sz - 1) src)))"

definition appendString :: "string \<Rightarrow> string" where
  "appendString src = dquote # appendString_body src @ [dquote]"

subsection \<open>Decoding a string literal: the scanner's string states and \<^verbatim>\<open>unquote\<close>\<close>

definition hex_val :: "char \<Rightarrow> nat option" where
  "hex_val c =
     (if byte (CHR ''0'') \<le> byte c \<and> byte c \<le> byte (CHR ''9'') then Some (byte c - byte (CHR ''0''))
      else if byte (CHR ''a'') \<le> byte c \<and> byte c \<le> byte (CHR ''f'') then Some (byte c - byte (CHR ''a'') + 10)
      else if byte (CHR ''A'') \<le> byte c \<and> byte c \<le> byte (CHR ''F'') then Some (byte c - byte (CHR ''A'') + 10)
      else None)"

fun hex4 :: "string \<Rightarrow> nat option" where
  "hex4 (a # b # c # d # _) =
     (case (hex_val a, hex_val b, hex_val c, hex_val d) of
        (Some x, Some y, Some z, Some w) \<Rightarrow> Some (((x * 16 + y) * 16 + z) * 16 + w)
      | _ \<Rightarrow> None)"
| "hex4 _ = None"

text \<open>\<^verbatim>\<open>getu4\<close>: the code point of a \<^verbatim>\<open>\uXXXX\<close> escape at the head; \<open>None\<close> is Go's \<open>-1\<close>.\<close>

fun getu4 :: "string \<Rightarrow> nat option" where
  "getu4 (c0 # c1 # s) = (if c0 = bslash \<and> c1 = CHR ''u'' then hex4 s else None)"
| "getu4 _ = None"

definition is_surrogate :: "nat \<Rightarrow> bool" where
  "is_surrogate r = (0xD800 \<le> r \<and> r < 0xE000)"

text \<open>\<^verbatim>\<open>utf16.DecodeRune\<close>; \<open>None\<close> is the replacement character it returns for no valid pair.\<close>

definition utf16_decode :: "nat \<Rightarrow> nat option \<Rightarrow> nat option" where
  "utf16_decode r1 r2 =
     (case r2 of
        None \<Rightarrow> None
      | Some r2' \<Rightarrow>
          if 0xD800 \<le> r1 \<and> r1 < 0xDC00 \<and> 0xDC00 \<le> r2' \<and> r2' < 0xE000
          then Some ((r1 - 0xD800) * 1024 + (r2' - 0xDC00) + 0x10000)
          else None)"

definition simple_escape :: "char \<Rightarrow> char option" where
  "simple_escape e =
     (if e = dquote \<or> e = bslash \<or> e = CHR ''/'' then Some e
      else if e = CHR ''b'' then Some (CHR 0x08)
      else if e = CHR ''f'' then Some (CHR 0x0C)
      else if e = CHR ''n'' then Some (CHR 0x0A)
      else if e = CHR ''r'' then Some (CHR 0x0D)
      else if e = CHR ''t'' then Some (CHR 0x09)
      else None)"

definition emit :: "string \<Rightarrow> (string \<times> string) option \<Rightarrow> (string \<times> string) option" where
  "emit out r = (case r of None \<Rightarrow> None | Some (v, rest) \<Rightarrow> Some (out @ v, rest))"

text \<open>
  \<open>unquote s\<close> reads a string literal whose opening quote has been consumed: it returns the
  decoded Go string and the input after the closing quote, or \<open>None\<close> where the scanner
  reports a syntax error (a control character, a bad escape, no closing quote). A byte that
  starts no well-formed UTF-8 encoding decodes to U+FFFD; a well-formed encoding is copied.
\<close>

fun unquote :: "string \<Rightarrow> (string \<times> string) option" where
  "unquote [] = None"
| "unquote (c # cs) =
     (if c = dquote then Some ([], cs)
      else if c = bslash then
        (case cs of
           [] \<Rightarrow> None
         | e # es \<Rightarrow>
             if e = CHR ''u'' then
               (case hex4 es of
                  None \<Rightarrow> None
                | Some rr \<Rightarrow>
                    if is_surrogate rr then
                      (case utf16_decode rr (getu4 (drop 4 es)) of
                         Some dec \<Rightarrow> emit (encode_rune dec) (unquote (drop 10 es))
                       | None \<Rightarrow> emit replacement_char (unquote (drop 4 es)))
                    else emit (encode_rune rr) (unquote (drop 4 es)))
             else
               (case simple_escape e of
                  None \<Rightarrow> None
                | Some d \<Rightarrow> emit [d] (unquote es)))
      else if byte c < 0x20 then None
      else if byte c < 0x80 then emit [c] (unquote cs)
      else
        (let sz = utf8_size (c # cs) in
         if sz = 0 then emit replacement_char (unquote cs)
         else emit (take sz (c # cs)) (unquote (drop (sz - 1) cs))))"


section \<open>Facts about strings\<close>

lemma hex_val_hex_digit_all: "\<forall>n<16. hex_val (hex_digit n) = Some n"
  by (simp add: numeral_eq_Suc All_less_Suc hex_val_def hex_digit_def)

lemma hex_val_hex_digit: "n < 16 \<Longrightarrow> hex_val (hex_digit n) = Some n"
  using hex_val_hex_digit_all by blast

lemma emit_Nil [simp]: "emit [] r = r"
  by (simp add: emit_def split: option.splits)

lemma emit_emit [simp]: "emit a (emit b r) = emit (a @ b) r"
  by (simp add: emit_def split: option.splits)

lemma emit_Some [simp]: "emit a (Some (v, rest)) = Some (a @ v, rest)"
  by (simp add: emit_def)

lemma emit_None [simp]: "emit a None = None"
  by (simp add: emit_def)

lemma unquote_escape_ascii:
  assumes "byte b < 0x80" "\<not> html_safe b"
  shows "unquote (escape_ascii b @ s) = emit [b] (unquote s)"
proof (cases "b = bslash \<or> b = dquote \<or> b = CHR 0x08 \<or> b = CHR 0x0C \<or> b = CHR 0x0A
              \<or> b = CHR 0x0D \<or> b = CHR 0x09")
  case True
  then show ?thesis
    by (auto simp: escape_ascii_def simple_escape_def)
next
  case False
  have lt: "byte b div 16 < 16" "byte b mod 16 < 16" using assms(1) by auto
  have e: "escape_ascii b = bslash # ''u00'' @ [hex_digit (byte b div 16), hex_digit (byte b mod 16)]"
    using False by (simp add: escape_ascii_def)
  have h: "hex4 (''00'' @ [hex_digit (byte b div 16), hex_digit (byte b mod 16)] @ s) = Some (byte b)"
  proof -
    have z: "hex_val (CHR ''0'') = Some 0" by (simp add: hex_val_def)
    have "(byte b div 16) * 16 + byte b mod 16 = byte b" by simp
    then show ?thesis using lt by (simp add: hex_val_hex_digit z)
  qed
  have ns: "\<not> is_surrogate (byte b)" using assms(1) by (simp add: is_surrogate_def)
  have er: "encode_rune (byte b) = [b]" using assms(1) by (simp add: encode_rune_def)
  show ?thesis
    using h ns er by (simp add: e)
qed

lemma utf8_size_le_length: "utf8_size p \<le> length p"
  by (auto simp add: utf8_size_def Let_def lead_size_def Suc_le_eq split: list.splits)

lemma lead_size_cases:
  "lead_size b = 0 \<or> lead_size b = 1 \<or> lead_size b = 2 \<or> lead_size b = 3 \<or> lead_size b = 4"
  by (simp add: lead_size_def)

lemma utf8_size_lead:
  "utf8_size (p0 # ps) \<noteq> 0 \<Longrightarrow> utf8_size (p0 # ps) = lead_size (byte p0)"
  using lead_size_cases[of "byte p0"]
  by (auto simp: utf8_size_def Let_def split: if_splits)

text \<open>DecodeRune looks at the bytes of the encoding only.\<close>

lemma utf8_size_prefix:
  assumes "utf8_size p = n" "n \<noteq> 0"
  shows "utf8_size (take n p @ t) = n"
proof (cases p)
  case Nil
  then show ?thesis using assms by (simp add: utf8_size_def)
next
  case (Cons p0 ps)
  have len: "n \<le> length p" using assms(1) utf8_size_le_length by blast
  have sz: "lead_size (byte p0) = n" using assms Cons utf8_size_lead by metis
  consider "n = 1" | "n = 2" | "n = 3" | "n = 4"
    using lead_size_cases[of "byte p0"] sz assms(2) by auto
  then show ?thesis
  proof cases
    case 1
    then show ?thesis using sz Cons by (simp add: utf8_size_def)
  next
    case 2
    then obtain p1 r where p: "p = p0 # p1 # r" using len Cons by (cases ps) auto
    show ?thesis using assms(1) sz 2 unfolding p utf8_size_def
      by (simp add: Let_def split: if_splits)
  next
    case 3
    then obtain p1 p2 r where p: "p = p0 # p1 # p2 # r" using len Cons
      by (cases ps; cases "tl ps") auto
    show ?thesis using assms(1) sz 3 unfolding p utf8_size_def
      by (simp add: Let_def split: if_splits)
  next
    case 4
    then obtain p1 p2 p3 r where p: "p = p0 # p1 # p2 # p3 # r" using len Cons
      by (cases ps; cases "tl ps"; cases "tl (tl ps)") auto
    show ?thesis using assms(1) sz 4 unfolding p utf8_size_def
      by (simp add: Let_def split: if_splits)
  qed
qed

text \<open>The decoder copies a well-formed multi-byte encoding.\<close>

lemma unquote_multibyte:
  assumes hi: "\<not> byte b < 0x80" and sz: "utf8_size (b # src) = Suc m"
  shows "unquote (b # take m src @ t) = emit (b # take m src) (unquote t)"
proof -
  have nq: "b \<noteq> dquote" "b \<noteq> bslash" "\<not> byte b < 0x20"
    using hi by auto
  have len: "Suc m \<le> length (b # src)"
    using utf8_size_le_length[of "b # src"] sz by simp
  have pre: "utf8_size (b # take m src @ t) = Suc m"
    using utf8_size_prefix[of "b # src" "Suc m" t] sz by simp
  have tk2: "take (Suc m) (b # take m src @ t) = b # take m src"
    using len by simp
  have dr: "drop m (take m src @ t) = t"
    using len by simp
  show ?thesis
    apply (subst unquote.simps)
    apply (simp only: nq hi if_False Let_def pre tk2 diff_Suc_1 dr nat.distinct)
    done
qed

text \<open>
  Decoding what \<^verbatim>\<open>appendString\<close> wrote gives the string back, coerced to valid UTF-8, and
  stops right after the closing quote.
\<close>

lemma unquote_appendString_body:
  "unquote (appendString_body s @ dquote # rest) = Some (utf8_coerce s, rest)"
proof (induction s rule: appendString_body.induct)
  case 1
  then show ?case by simp
next
  case (2 b src)
  show ?case
  proof (cases "byte b < 0x80")
    case True
    note ascii = this
    show ?thesis
    proof (cases "html_safe b")
      case True
      then show ?thesis using ascii 2(1) by (simp add: html_safe_def)
    next
      case False
      then show ?thesis using ascii 2(1) unquote_escape_ascii[OF ascii False] by simp
    qed
  next
    case False
    note hi = this
    define n where "n = utf8_size (b # src)"
    show ?thesis
    proof (cases "n = 0")
      case True
      have h: "hex4 (''fffd'' @ t) = Some 0xFFFD" for t
        by (simp add: hex_val_def)
      have e: "encode_rune 0xFFFD = replacement_char"
        by (simp add: encode_rune_def replacement_char_def char_of_def bit_Suc_0_iff)
      have a: "appendString_body (b # src) = bslash # ''ufffd'' @ appendString_body src"
        using hi True by (simp add: n_def)
      have c: "utf8_coerce (b # src) = replacement_char @ utf8_coerce src"
        using hi True by (simp add: n_def)
      have ih: "unquote (appendString_body src @ dquote # rest) = Some (utf8_coerce src, rest)"
        using 2(2)[OF hi n_def True] .
      show ?thesis
        unfolding a c
        using h[of "appendString_body src @ dquote # rest"] e ih
        by (simp add: is_surrogate_def)
    next
      case False
      note nz = this
      then obtain m where m: "n = Suc m" by (cases n) auto
      have u: "unquote (b # take m src @ t) = emit (b # take m src) (unquote t)" for t
        using unquote_multibyte[OF hi] n_def m by simp
      show ?thesis
      proof (cases "take n (b # src) = line_sep")
        case True
        have h: "hex4 (''2028'' @ t) = Some 0x2028" for t
          by (simp add: hex_val_def)
        have e: "encode_rune 0x2028 = line_sep"
          by (simp add: encode_rune_def line_sep_def char_of_def bit_Suc_0_iff)
        have a: "appendString_body (b # src) = bslash # ''u2028'' @ appendString_body (drop m src)"
          using hi nz True by (simp add: n_def[symmetric] m)
        have c: "utf8_coerce (b # src) = line_sep @ utf8_coerce (drop m src)"
          using hi nz True by (simp add: n_def[symmetric] m)
        have ih: "unquote (appendString_body (drop (n - 1) src) @ dquote # rest)
                    = Some (utf8_coerce (drop (n - 1) src), rest)"
          using 2(3)[OF hi n_def nz True] .
        show ?thesis
          unfolding a c
          using h[of "appendString_body (drop m src) @ dquote # rest"] e ih
          by (simp add: is_surrogate_def m)
      next
        case False
        note nls = this
        show ?thesis
        proof (cases "take n (b # src) = para_sep")
          case True
          have h: "hex4 (''2029'' @ t) = Some 0x2029" for t
            by (simp add: hex_val_def)
          have e: "encode_rune 0x2029 = para_sep"
            by (simp add: encode_rune_def para_sep_def char_of_def bit_Suc_0_iff)
          have a: "appendString_body (b # src) = bslash # ''u2029'' @ appendString_body (drop m src)"
            using hi nz nls True by (simp add: n_def[symmetric] m)
          have c: "utf8_coerce (b # src) = para_sep @ utf8_coerce (drop m src)"
            using hi nz True by (simp add: n_def[symmetric] m)
          have ih: "unquote (appendString_body (drop (n - 1) src) @ dquote # rest)
                      = Some (utf8_coerce (drop (n - 1) src), rest)"
            using 2(4)[OF hi n_def nz nls True] .
          show ?thesis
            unfolding a c
            using h[of "appendString_body (drop m src) @ dquote # rest"] e ih
            by (simp add: is_surrogate_def m)
        next
          case False
          have a: "appendString_body (b # src) = (b # take m src) @ appendString_body (drop m src)"
            using hi nz nls False by (simp add: n_def[symmetric] m)
          have c: "utf8_coerce (b # src) = (b # take m src) @ utf8_coerce (drop m src)"
            using hi nz by (simp add: n_def[symmetric] m)
          have ih: "unquote (appendString_body (drop (n - 1) src) @ dquote # rest)
                      = Some (utf8_coerce (drop (n - 1) src), rest)"
            using 2(5)[OF hi n_def nz nls False] .
          show ?thesis
            unfolding a c
            using u[of "appendString_body (drop m src) @ dquote # rest"] ih
            by (simp add: m del: unquote.simps)
        qed
      qed
    qed
  qed
qed

lemma utf8_coerce_valid: "utf8_valid s \<Longrightarrow> utf8_coerce s = s"
proof (induction s rule: utf8_valid.induct)
  case 1
  then show ?case by simp
next
  case (2 b src)
  show ?case
  proof (cases "byte b < 0x80")
    case True
    then show ?thesis using 2 by simp
  next
    case False
    define n where "n = utf8_size (b # src)"
    have nz: "n \<noteq> 0" using 2(3) False by (auto simp: n_def Let_def split: if_splits)
    then obtain m where m: "n = Suc m" by (cases n) auto
    have v: "utf8_valid (drop (n - 1) src)"
      using 2(3) False nz by (simp add: n_def[symmetric])
    have "utf8_coerce (drop (n - 1) src) = drop (n - 1) src"
      using 2(2)[OF False n_def nz v] .
    then show ?thesis
      using False nz by (simp add: n_def[symmetric] m)
  qed
qed

lemma emit_SomeD: "emit out r = Some (v, rest) \<Longrightarrow> \<exists>v'. r = Some (v', rest) \<and> v = out @ v'"
  by (auto simp: emit_def split: option.splits)

text \<open>A string literal is never empty: reading one consumes input.\<close>

lemma unquote_shorter: "unquote s = Some (v, r) \<Longrightarrow> length r < length s"
proof (induction s arbitrary: v rule: unquote.induct)
  case 1
  then show ?case by simp
next
  case (2 c cs)
  show ?case
  proof (cases "c = dquote")
    case True
    then show ?thesis using "2.prems" by simp
  next
    case nd: False
    show ?thesis
    proof (cases "c = bslash")
      case True
      note bs = this
      show ?thesis
      proof (cases cs)
        case Nil
        then show ?thesis using "2.prems" nd bs by simp
      next
        case (Cons e es)
        show ?thesis
        proof (cases "e = CHR ''u''")
          case True
          note eu = this
          show ?thesis
          proof (cases "hex4 es")
            case None
            then show ?thesis using "2.prems" nd bs Cons eu by simp
          next
            case (Some rr)
            show ?thesis
            proof (cases "is_surrogate rr")
              case True
              note sur = this
              show ?thesis
              proof (cases "utf16_decode rr (getu4 (drop 4 es))")
                case None
                from "2.prems" nd bs Cons eu Some sur None
                have "emit replacement_char (unquote (drop 4 es)) = Some (v, r)" by simp
                then obtain v' where "unquote (drop 4 es) = Some (v', r)"
                  using emit_SomeD by blast
                from "2.IH"(1)[OF nd bs Cons eu Some sur None this]
                show ?thesis using Cons by simp
              next
                case (Some dec)
                note d = this
                from "2.prems" nd bs Cons eu \<open>hex4 es = Some rr\<close> sur d
                have "emit (encode_rune dec) (unquote (drop 10 es)) = Some (v, r)" by simp
                then obtain v' where "unquote (drop 10 es) = Some (v', r)"
                  using emit_SomeD by blast
                from "2.IH"(2)[OF nd bs Cons eu \<open>hex4 es = Some rr\<close> sur d this]
                show ?thesis using Cons by simp
              qed
            next
              case False
              from "2.prems" nd bs Cons eu Some False
              have "emit (encode_rune rr) (unquote (drop 4 es)) = Some (v, r)" by simp
              then obtain v' where "unquote (drop 4 es) = Some (v', r)"
                using emit_SomeD by blast
              from "2.IH"(3)[OF nd bs Cons eu Some False this]
              show ?thesis using Cons by simp
            qed
          qed
        next
          case False
          note neu = this
          show ?thesis
          proof (cases "simple_escape e")
            case None
            then show ?thesis using "2.prems" nd bs Cons neu by simp
          next
            case (Some d)
            from "2.prems" nd bs Cons neu Some
            have "emit [d] (unquote es) = Some (v, r)" by simp
            then obtain v' where "unquote es = Some (v', r)"
              using emit_SomeD by blast
            from "2.IH"(4)[OF nd bs Cons neu Some this]
            show ?thesis using Cons by simp
          qed
        qed
      qed
    next
      case nb: False
      show ?thesis
      proof (cases "byte c < 0x20")
        case True
        then show ?thesis using "2.prems" nd nb by simp
      next
        case nctl: False
        show ?thesis
        proof (cases "byte c < 0x80")
          case True
          from "2.prems" nd nb nctl True
          have "emit [c] (unquote cs) = Some (v, r)" by simp
          then obtain v' where "unquote cs = Some (v', r)"
            using emit_SomeD by blast
          from "2.IH"(5)[OF nd nb nctl True this]
          show ?thesis by simp
        next
          case hi: False
          define n where "n = utf8_size (c # cs)"
          show ?thesis
          proof (cases "n = 0")
            case True
            from "2.prems" nd nb nctl hi True
            have "emit replacement_char (unquote cs) = Some (v, r)" by (simp add: n_def)
            then obtain v' where "unquote cs = Some (v', r)"
              using emit_SomeD by blast
            from "2.IH"(6)[OF nd nb nctl hi n_def True this]
            show ?thesis by simp
          next
            case False
            from "2.prems" nd nb nctl hi False
            have "emit (take n (c # cs)) (unquote (drop (n - 1) cs)) = Some (v, r)"
              by (simp add: n_def Let_def)
            then obtain v' where "unquote (drop (n - 1) cs) = Some (v', r)"
              using emit_SomeD by blast
            from "2.IH"(7)[OF nd nb nctl hi n_def False this]
            show ?thesis by simp
          qed
        qed
      qed
    qed
  qed
qed


section \<open>Decoding values\<close>

text \<open>
  \<^verbatim>\<open>json.Unmarshal\<close> first checks that the whole input is one JSON value between optional
  white space, then stores it. For a \<^verbatim>\<open>string\<close> target the value must be a string literal or
  \<^verbatim>\<open>null\<close> (which stores nothing); for \<^verbatim>\<open>[]string\<close> an array of such values, or \<^verbatim>\<open>null\<close>;
  for \<^verbatim>\<open>map[string]string\<close> an object with such values, or \<^verbatim>\<open>null\<close>. On every other input
  Unmarshal returns a \<^verbatim>\<open>*SyntaxError\<close> or an \<^verbatim>\<open>*UnmarshalTypeError\<close>; the model does not tell
  the two apart and returns \<open>JSONError\<close> for both. The targets are fresh variables, as at
  every call in \<^verbatim>\<open>models.go\<close>.
\<close>

datatype error = JSONError

definition isSpace :: "char \<Rightarrow> bool" where
  "isSpace c = (c = CHR '' '' \<or> c = CHR 0x09 \<or> c = CHR 0x0D \<or> c = CHR 0x0A)"

definition skip_space :: "string \<Rightarrow> string" where
  "skip_space s = dropWhile isSpace s"

text \<open>
  A string literal or \<^verbatim>\<open>null\<close> at the head of the input: the Go string it stores (the empty
  string, the zero value, for \<^verbatim>\<open>null\<close>) and the rest of the input.
\<close>

definition string_value :: "string \<Rightarrow> (string \<times> string) option" where
  "string_value s =
     (case s of
        [] \<Rightarrow> None
      | c # cs \<Rightarrow>
          if c = dquote then unquote cs
          else if take 4 s = ''null'' then Some ([], drop 4 s)
          else None)"

lemma length_skip_space: "length (skip_space s) \<le> length s"
  by (simp add: skip_space_def length_dropWhile_le)

lemma string_value_shorter: "string_value s = Some (v, r) \<Longrightarrow> length r < length s"
  by (auto simp: string_value_def dest: unquote_shorter split: list.splits if_splits)

text \<open>The elements of a non-empty array, from its first element to the closing bracket.\<close>

function array_elems :: "string \<Rightarrow> (string list \<times> string) option" where
  "array_elems s =
     (case string_value s of
        None \<Rightarrow> None
      | Some (v, r) \<Rightarrow>
          (case skip_space r of
             [] \<Rightarrow> None
           | c # r' \<Rightarrow>
               if c = CHR '','' then
                 (case array_elems (skip_space r') of
                    None \<Rightarrow> None
                  | Some (vs, rest) \<Rightarrow> Some (v # vs, rest))
               else if c = CHR '']'' then Some ([v], r')
               else None))"
  by pat_completeness auto
termination
proof (relation "measure length")
  show "wf (measure length)" by simp
next
  fix s :: string and x2 v r c r'
  assume a: "string_value s = Some x2" "(v, r) = x2" "skip_space r = c # r'"
  have "length r' < length (skip_space r)" using a(3) by simp
  also have "\<dots> \<le> length r" by (rule length_skip_space)
  also have "\<dots> < length s" using a(1,2) string_value_shorter by metis
  finally have "length r' < length s" .
  then show "(skip_space r', s) \<in> measure length"
    using length_skip_space[of r'] by simp
qed

text \<open>The members of a non-empty object, from its first key to the closing brace.\<close>

function object_members :: "string \<Rightarrow> ((string \<times> string) list \<times> string) option" where
  "object_members s =
     (case s of
        [] \<Rightarrow> None
      | q # s1 \<Rightarrow>
          if q \<noteq> dquote then None
          else
            (case unquote s1 of
               None \<Rightarrow> None
             | Some (k, r) \<Rightarrow>
                 (case skip_space r of
                    [] \<Rightarrow> None
                  | c # r1 \<Rightarrow>
                      if c \<noteq> CHR '':'' then None
                      else
                        (case string_value (skip_space r1) of
                           None \<Rightarrow> None
                         | Some (v, r2) \<Rightarrow>
                             (case skip_space r2 of
                                [] \<Rightarrow> None
                              | d # r3 \<Rightarrow>
                                  if d = CHR '','' then
                                    (case object_members (skip_space r3) of
                                       None \<Rightarrow> None
                                     | Some (kvs, rest) \<Rightarrow> Some ((k, v) # kvs, rest))
                                  else if d = CHR ''}'' then Some ([(k, v)], r3)
                                  else None)))))"
  by pat_completeness auto
termination
proof (relation "measure length")
  show "wf (measure length)" by simp
next
  fix s :: string and q s1 x2 k r c r1 x2a v r2 d r3
  assume a: "s = q # s1" "unquote s1 = Some x2" "(k, r) = x2" "skip_space r = c # r1"
    "string_value (skip_space r1) = Some x2a" "(v, r2) = x2a" "skip_space r2 = d # r3"
  have "length r3 < length (skip_space r2)" using a(7) by simp
  also have "\<dots> \<le> length r2" by (rule length_skip_space)
  also have "\<dots> < length (skip_space r1)" using a(5,6) string_value_shorter by metis
  also have "\<dots> \<le> length r1" by (rule length_skip_space)
  also have "\<dots> < length (skip_space r)" using a(4) by simp
  also have "\<dots> \<le> length r" by (rule length_skip_space)
  also have "\<dots> < length s1" using a(2,3) unquote_shorter by metis
  also have "\<dots> < length s" using a(1) by simp
  finally have "length r3 < length s" .
  then show "(skip_space r3, s) \<in> measure length"
    using length_skip_space[of r3] by simp
qed

text \<open>After the value only white space may follow.\<close>

definition at_end :: "'a \<Rightarrow> string \<Rightarrow> error + 'a" where
  "at_end v rest = (if skip_space rest = [] then Inr v else Inl JSONError)"

definition json_Unmarshal_string :: "string \<Rightarrow> error + string" where
  "json_Unmarshal_string data =
     (case string_value (skip_space data) of
        None \<Rightarrow> Inl JSONError
      | Some (v, rest) \<Rightarrow> at_end v rest)"

text \<open>\<open>None\<close> is the nil slice that \<^verbatim>\<open>null\<close> stores; \<^verbatim>\<open>[]\<close> stores an empty slice.\<close>

definition json_Unmarshal_strings :: "string \<Rightarrow> error + string list option" where
  "json_Unmarshal_strings data =
     (case skip_space data of
        [] \<Rightarrow> Inl JSONError
      | c # cs \<Rightarrow>
          if c = CHR ''['' then
            (case skip_space cs of
               [] \<Rightarrow> Inl JSONError
             | d # ds \<Rightarrow>
                 if d = CHR '']'' then at_end (Some []) ds
                 else
                   (case array_elems (d # ds) of
                      None \<Rightarrow> Inl JSONError
                    | Some (vs, rest) \<Rightarrow> at_end (Some vs) rest))
          else if take 4 (c # cs) = ''null'' then at_end None (drop 4 (c # cs))
          else Inl JSONError)"

text \<open>Members are stored in input order, so a repeated key keeps its last value.\<close>

definition store_members :: "(string \<times> string) list \<Rightarrow> (string \<rightharpoonup> string)" where
  "store_members kvs = foldl (\<lambda>m (k, v). m(k \<mapsto> v)) Map.empty kvs"

text \<open>
  A Go map is read here by its keys only, so the nil map that \<^verbatim>\<open>null\<close> leaves and the empty
  map of \<^verbatim>\<open>{}\<close> are both \<open>Map.empty\<close>. A Go map has no order of entries.
\<close>

definition json_Unmarshal_map :: "string \<Rightarrow> error + (string \<rightharpoonup> string)" where
  "json_Unmarshal_map data =
     (case skip_space data of
        [] \<Rightarrow> Inl JSONError
      | c # cs \<Rightarrow>
          if c = CHR ''{'' then
            (case skip_space cs of
               [] \<Rightarrow> Inl JSONError
             | d # ds \<Rightarrow>
                 if d = CHR ''}'' then at_end Map.empty ds
                 else
                   (case object_members (d # ds) of
                      None \<Rightarrow> Inl JSONError
                    | Some (kvs, rest) \<Rightarrow> at_end (store_members kvs) rest))
          else if take 4 (c # cs) = ''null'' then at_end Map.empty (drop 4 (c # cs))
          else Inl JSONError)"


section \<open>Encoding values\<close>

text \<open>\<^verbatim>\<open>strings.Join(elems, sep)\<close>.\<close>

fun join :: "string list \<Rightarrow> string \<Rightarrow> string" where
  "join [] sep = []"
| "join [x] sep = x"
| "join (x # y # ys) sep = x @ sep @ join (y # ys) sep"

text \<open>
  \<^verbatim>\<open>json.Marshal\<close> of a \<^verbatim>\<open>string\<close> and of a \<^verbatim>\<open>[]string\<close> (\<open>None\<close> is the nil slice, which
  encodes as \<^verbatim>\<open>null\<close>). Neither returns an error.
\<close>

definition json_Marshal_string :: "string \<Rightarrow> error + string" where
  "json_Marshal_string s = Inr (appendString s)"

definition json_Marshal_strings :: "string list option \<Rightarrow> error + string" where
  "json_Marshal_strings s =
     (case s of
        None \<Rightarrow> Inr ''null''
      | Some xs \<Rightarrow> Inr (''['' @ join (map appendString xs) '','' @ '']''))"

declare array_elems.simps [simp del]
declare object_members.simps [simp del]


section \<open>\<^verbatim>\<open>models.go\<close>: StringOrArray\<close>

text \<open>
  \<^verbatim>\<open>type StringOrArray []string\<close>. A Go slice is \<open>None\<close> when it is nil, and \<open>Some xs\<close>
  otherwise; \<open>len\<close> is Go's \<^verbatim>\<open>len\<close> and \<open>elems\<close> the elements.
\<close>

type_synonym StringOrArray = "string list option"

definition len :: "'a list option \<Rightarrow> nat" where
  "len s = (case s of None \<Rightarrow> 0 | Some xs \<Rightarrow> length xs)"

definition elems :: "'a list option \<Rightarrow> 'a list" where
  "elems s = (case s of None \<Rightarrow> [] | Some xs \<Rightarrow> xs)"

text \<open>
  \<^verbatim>\<open>func (s *StringOrArray) UnmarshalJSON(data []byte) error\<close>: the first argument is \<^verbatim>\<open>*s\<close>
  before the call, the result is \<^verbatim>\<open>*s\<close> after the call and the error returned (\<open>None\<close> is
  \<^verbatim>\<open>nil\<close>). On an error \<^verbatim>\<open>*s\<close> is left as it was.
\<close>

definition StringOrArray_UnmarshalJSON :: "StringOrArray \<Rightarrow> string \<Rightarrow> StringOrArray \<times> error option" where
  "StringOrArray_UnmarshalJSON s data =
     (if length data > 1 \<and> data ! 0 = CHR ''['' then
        (case json_Unmarshal_strings data of
           Inl err \<Rightarrow> (s, Some err)
         | Inr obj \<Rightarrow> (obj, None))
      else
        (case json_Unmarshal_string data of
           Inl err \<Rightarrow> (s, Some err)
         | Inr obj \<Rightarrow> (Some [obj], None)))"

text \<open>\<^verbatim>\<open>func (s *StringOrArray) MarshalJSON() ([]byte, error)\<close>.\<close>

definition StringOrArray_MarshalJSON :: "StringOrArray \<Rightarrow> error + string" where
  "StringOrArray_MarshalJSON s =
     (if len s = 1 then json_Marshal_string (elems s ! 0)
      else json_Marshal_strings s)"

subsection \<open>Decoding what was encoded\<close>

lemma skip_space_Nil [simp]: "skip_space [] = []"
  by (simp add: skip_space_def)

lemma skip_space_Cons: "\<not> isSpace c \<Longrightarrow> skip_space (c # s) = c # s"
  by (simp add: skip_space_def)

lemma skip_space_appendString [simp]: "skip_space (appendString x @ t) = appendString x @ t"
  by (simp add: appendString_def skip_space_Cons isSpace_def)

lemma skip_space_appendString' [simp]: "skip_space (appendString x) = appendString x"
  using skip_space_appendString[of x "[]"] by simp

lemma string_value_appendString [simp]:
  "string_value (appendString x @ t) = Some (utf8_coerce x, t)"
  by (simp add: string_value_def appendString_def unquote_appendString_body)

lemma json_Unmarshal_string_appendString:
  "json_Unmarshal_string (appendString x) = Inr (utf8_coerce x)"
  using string_value_appendString[of x "[]"]
  by (simp add: json_Unmarshal_string_def at_end_def)

lemma array_elems_join:
  "xs \<noteq> [] \<Longrightarrow>
   array_elems (join (map appendString xs) '','' @ CHR '']'' # rest) = Some (map utf8_coerce xs, rest)"
proof (induction xs rule: induct_list012)
  case 1
  then show ?case by simp
next
  case (2 x)
  show ?case
    by (subst array_elems.simps) (simp add: skip_space_Cons isSpace_def)
next
  case (3 x y zs)
  have ih: "array_elems (join (map appendString (y # zs)) '','' @ CHR '']'' # rest)
              = Some (map utf8_coerce (y # zs), rest)"
    using 3(2) by simp
  have sk: "skip_space (join (map appendString (y # zs)) '','' @ CHR '']'' # rest)
              = join (map appendString (y # zs)) '','' @ CHR '']'' # rest"
    by (cases zs) (simp_all add: appendString_def skip_space_Cons isSpace_def)
  show ?case
    apply (subst array_elems.simps)
    using ih sk apply (simp add: skip_space_Cons isSpace_def)
    done
qed

lemma json_Unmarshal_strings_join:
  "json_Unmarshal_strings (''['' @ join (map appendString xs) '','' @ '']'')
     = Inr (Some (map utf8_coerce xs))"
proof (cases xs)
  case Nil
  then show ?thesis
    by (simp add: json_Unmarshal_strings_def skip_space_Cons isSpace_def at_end_def)
next
  case (Cons x ys)
  have hd: "join (map appendString xs) '','' @ '']''
              = dquote # tl (join (map appendString xs) '','' @ '']'')"
    using Cons by (cases ys) (simp_all add: appendString_def)
  have ae: "array_elems (join (map appendString xs) '','' @ '']'') = Some (map utf8_coerce xs, [])"
    using array_elems_join[of xs "[]"] Cons by simp
  show ?thesis
    unfolding json_Unmarshal_strings_def
    apply (simp add: skip_space_Cons isSpace_def)
    apply (subst hd)
    apply (simp add: skip_space_Cons isSpace_def)
    apply (subst hd[symmetric])
    apply (simp add: ae at_end_def)
    done
qed

text \<open>
  For every non-empty sequence, of any bytes: decoding the encoding succeeds and gives the
  sequence with each string coerced to valid UTF-8.
\<close>

lemma StringOrArray_roundtrip_coerce:
  assumes "s \<noteq> []"
  shows "\<exists>b. StringOrArray_MarshalJSON (Some s) = Inr b
           \<and> StringOrArray_UnmarshalJSON s0 b = (Some (map utf8_coerce s), None)"
proof -
  consider x where "s = [x]" | x y zs where "s = x # y # zs"
    using assms by (cases s; cases "tl s") auto
  then show ?thesis
  proof cases
    case 1
    have "StringOrArray_MarshalJSON (Some s) = Inr (appendString x)"
      by (simp add: 1 StringOrArray_MarshalJSON_def json_Marshal_string_def len_def elems_def)
    moreover have "StringOrArray_UnmarshalJSON s0 (appendString x) = (Some [utf8_coerce x], None)"
      by (simp add: StringOrArray_UnmarshalJSON_def json_Unmarshal_string_appendString)
         (simp add: appendString_def)
    ultimately show ?thesis using 1 by simp
  next
    case 2
    define b where "b = ''['' @ join (map appendString s) '','' @ '']''"
    have "StringOrArray_MarshalJSON (Some s) = Inr b"
      by (simp add: 2 b_def StringOrArray_MarshalJSON_def json_Marshal_strings_def len_def)
    moreover have "length b > 1 \<and> b ! 0 = CHR ''[''"
      by (simp add: b_def)
    then have "StringOrArray_UnmarshalJSON s0 b = (Some (map utf8_coerce s), None)"
      using json_Unmarshal_strings_join[of s]
      by (simp add: StringOrArray_UnmarshalJSON_def b_def)
    ultimately show ?thesis by blast
  qed
qed

text \<open>
  C1, as the code has it. For every non-empty sequence \<open>s\<close> of strings, whatever \<^verbatim>\<open>*s\<close> held
  before: MarshalJSON returns bytes \<open>b\<close> and no error, and UnmarshalJSON of \<open>b\<close> returns no
  error and stores the strings of \<open>s\<close>, in order, each coerced to valid UTF-8; so it stores
  \<open>s\<close> itself when the strings of \<open>s\<close> are valid UTF-8. When \<open>s\<close> has one element \<open>b\<close> is that
  element as a bare JSON string (it starts and ends with a quote, with no brackets around it),
  and when \<open>s\<close> has two or more elements \<open>b\<close> is the JSON array of the elements.
\<close>

theorem StringOrArray_roundtrip:
  assumes "s \<noteq> []"
  shows "\<exists>b. StringOrArray_MarshalJSON (Some s) = Inr b
           \<and> StringOrArray_UnmarshalJSON s0 b = (Some (map utf8_coerce s), None)
           \<and> (list_all utf8_valid s \<longrightarrow> StringOrArray_UnmarshalJSON s0 b = (Some s, None))
           \<and> (length s = 1 \<longrightarrow> b = appendString (s ! 0) \<and> hd b = dquote \<and> last b = dquote)
           \<and> (2 \<le> length s \<longrightarrow>
                b = ''['' @ join (map appendString s) '','' @ '']''
                \<and> hd b = CHR ''['' \<and> last b = CHR '']'')"
proof -
  have c: "list_all utf8_valid s \<Longrightarrow> map utf8_coerce s = s"
    by (induction s) (simp_all add: utf8_coerce_valid)
  obtain b where b: "StringOrArray_MarshalJSON (Some s) = Inr b"
      "StringOrArray_UnmarshalJSON s0 b = (Some (map utf8_coerce s), None)"
    using StringOrArray_roundtrip_coerce[OF assms(1), of s0] by blast
  have one: "length s = 1 \<longrightarrow> b = appendString (s ! 0) \<and> hd b = dquote \<and> last b = dquote"
    using b(1)
    by (auto simp: StringOrArray_MarshalJSON_def json_Marshal_string_def len_def elems_def
        appendString_def)
  have many: "2 \<le> length s \<longrightarrow>
      b = ''['' @ join (map appendString s) '','' @ '']'' \<and> hd b = CHR ''['' \<and> last b = CHR '']''"
    using b(1) by (auto simp: StringOrArray_MarshalJSON_def json_Marshal_strings_def len_def)
  show ?thesis using b c one many by auto
qed

text \<open>The two strings \<open>a\<close> and \<open>b\<close> encode as \<^verbatim>\<open>["a","b"]\<close>, which decodes to them.\<close>

theorem StringOrArray_roundtrip_witness:
  "StringOrArray_MarshalJSON (Some [''a'', ''b''])
     = Inr [CHR ''['', dquote, CHR ''a'', dquote, CHR '','', dquote, CHR ''b'', dquote, CHR '']'']
   \<and> StringOrArray_UnmarshalJSON None
        [CHR ''['', dquote, CHR ''a'', dquote, CHR '','', dquote, CHR ''b'', dquote, CHR '']'']
     = (Some [''a'', ''b''], None)"
  using StringOrArray_roundtrip[of "[''a'', ''b'']" None]
  by (auto simp: appendString_def html_safe_def)

text \<open>
  C1 as stated fails for a string that is not valid UTF-8: the one-element sequence holding
  the byte \<^verbatim>\<open>0xFF\<close> encodes as \<^verbatim>\<open>"\ufffd"\<close>, which decodes to U+FFFD, three other bytes.
\<close>

theorem StringOrArray_roundtrip_counterexample:
  "StringOrArray_MarshalJSON (Some [[CHR 0xFF]]) = Inr (dquote # bslash # ''ufffd'' @ [dquote])
   \<and> StringOrArray_UnmarshalJSON None (dquote # bslash # ''ufffd'' @ [dquote])
       = (Some [[CHR 0xEF, CHR 0xBF, CHR 0xBD]], None)
   \<and> [CHR 0xEF, CHR 0xBF, CHR 0xBD] \<noteq> [CHR 0xFF]"
  by (simp add: StringOrArray_MarshalJSON_def StringOrArray_UnmarshalJSON_def len_def elems_def
      json_Marshal_string_def json_Unmarshal_string_def appendString_def utf8_size_def lead_size_def
      string_value_def skip_space_Cons isSpace_def at_end_def hex_val_def is_surrogate_def
      encode_rune_def replacement_char_def char_of_def bit_Suc_0_iff)

text \<open>
  C8, as the code has it. MarshalJSON never returns an error. For a StringOrArray of length 0
  it returns \<^verbatim>\<open>null\<close> when the slice is nil and the JSON array \<^verbatim>\<open>[]\<close> when it is empty.
\<close>

theorem StringOrArray_MarshalJSON_empty:
  "(len s = 0 \<longrightarrow> StringOrArray_MarshalJSON s = Inr (if s = None then ''null'' else ''[]''))
   \<and> (\<exists>b. StringOrArray_MarshalJSON s = Inr b)"
  by (cases s)
     (auto simp: StringOrArray_MarshalJSON_def json_Marshal_strings_def json_Marshal_string_def
       len_def)

theorem StringOrArray_MarshalJSON_empty_witness:
  "StringOrArray_MarshalJSON None = Inr ''null''"
  using StringOrArray_MarshalJSON_empty[of None] by (simp add: len_def)

text \<open>C8 as stated fails: the empty sequence encodes as \<^verbatim>\<open>[]\<close>, with no error.\<close>

theorem StringOrArray_MarshalJSON_empty_counterexample:
  "StringOrArray_MarshalJSON (Some []) = Inr ''[]''"
  by (simp add: StringOrArray_MarshalJSON_def json_Marshal_strings_def len_def)



section \<open>\<^verbatim>\<open>models.go\<close>: EnforcedString\<close>

text \<open>
  A run-time panic of the Go program: an index out of range, and an assignment to an entry of
  a nil map.
\<close>

datatype panic = IndexOutOfRange | NilMapAssignment

text \<open>
  \<^verbatim>\<open>bytes.ReplaceAll(s, old, new)\<close> for a non-empty \<open>old\<close>, as at both calls below: every
  non-overlapping occurrence of \<open>old\<close>, from the left, is replaced by \<open>new\<close>.
\<close>

fun bytes_ReplaceAll :: "string \<Rightarrow> string \<Rightarrow> string \<Rightarrow> string" where
  "bytes_ReplaceAll [] old new = []"
| "bytes_ReplaceAll (c # s) old new =
     (if old \<noteq> [] \<and> take (length old) (c # s) = old
      then new @ bytes_ReplaceAll (drop (length old - 1) s) old new
      else c # bytes_ReplaceAll s old new)"

text \<open>
  \<^verbatim>\<open>func (s *EnforcedString) UnmarshalJSON(data []byte) error\<close>. The result is \<^verbatim>\<open>*s\<close> after
  the call and the error returned; \<^verbatim>\<open>*s\<close> is assigned \<^verbatim>\<open>val\<close> also when Unmarshal fails, and
  \<^verbatim>\<open>val\<close> is then still the empty string. \<^verbatim>\<open>data[0]\<close> on an empty \<open>data\<close> panics.
\<close>

definition EnforcedString_UnmarshalJSON :: "string \<Rightarrow> panic + (string \<times> error option)" where
  "EnforcedString_UnmarshalJSON data =
     (case data of
        [] \<Rightarrow> Inl IndexOutOfRange
      | d0 # _ \<Rightarrow>
          (let data1 =
                 (if d0 \<noteq> dquote then
                    (let data2 = bytes_ReplaceAll data [dquote] [bslash, dquote];
                         data3 = bytes_ReplaceAll data2 [bslash, bslash, dquote] [bslash, dquote]
                     in [dquote] @ data3 @ [dquote])
                  else data)
           in case json_Unmarshal_string data1 of
                Inl err \<Rightarrow> Inr ([], Some err)
              | Inr val \<Rightarrow> Inr (val, None)))"


subsection \<open>Payloads without a backslash\<close>

text \<open>Every quote escaped, which is what the first ReplaceAll does.\<close>

fun escape_quotes :: "string \<Rightarrow> string" where
  "escape_quotes [] = []"
| "escape_quotes (c # s) = (if c = dquote then bslash # dquote # escape_quotes s else c # escape_quotes s)"

lemma ReplaceAll_quote: "bytes_ReplaceAll s [dquote] [bslash, dquote] = escape_quotes s"
  by (induction s) auto

text \<open>Without a backslash in the payload the second ReplaceAll finds nothing to collapse.\<close>

lemma ReplaceAll_collapse_none:
  "bslash \<notin> set s \<Longrightarrow>
   bytes_ReplaceAll (escape_quotes s) [bslash, bslash, dquote] [bslash, dquote] = escape_quotes s"
  by (induction s) auto

lemma escape_quotes_append: "escape_quotes (a @ b) = escape_quotes a @ escape_quotes b"
  by (induction a) auto

lemma escape_quotes_id: "dquote \<notin> set s \<Longrightarrow> escape_quotes s = s"
  by (induction s) auto

text \<open>The bytes of a multi-byte encoding after the first are not ASCII.\<close>

lemma utf8_size_tail_high:
  assumes "utf8_size (b # src) = Suc m" "\<not> byte b < 0x80"
  shows "\<forall>c \<in> set (take m src). 0x80 \<le> byte c"
proof -
  have len: "Suc m \<le> length (b # src)" using utf8_size_le_length[of "b # src"] assms(1) by simp
  have sz: "lead_size (byte b) = Suc m" using assms(1) utf8_size_lead[of b src] by simp
  have lo: "0x80 \<le> accept_lo (byte b)" by (simp add: accept_lo_def)
  consider "m = 0" | "m = 1" | "m = 2" | "m = 3"
    using lead_size_cases[of "byte b"] sz by auto
  then show ?thesis
  proof cases
    case 1
    then show ?thesis by simp
  next
    case 2
    then obtain p1 r where p: "src = p1 # r" using len by (cases src) auto
    show ?thesis using assms(1) sz 2 lo unfolding p utf8_size_def
      by (auto simp: Let_def is_cont_def split: if_splits)
  next
    case 3
    then obtain p1 p2 r where p: "src = p1 # p2 # r" using len
      by (cases src; cases "tl src") auto
    show ?thesis using assms(1) sz 3 lo unfolding p utf8_size_def
      by (auto simp: Let_def is_cont_def split: if_splits)
  next
    case 4
    then obtain p1 p2 p3 r where p: "src = p1 # p2 # p3 # r" using len
      by (cases src; cases "tl src"; cases "tl (tl src)") auto
    show ?thesis using assms(1) sz 4 lo unfolding p utf8_size_def
      by (auto simp: Let_def is_cont_def split: if_splits)
  qed
qed

lemma unquote_escape_quotes:
  assumes "utf8_valid s" "bslash \<notin> set s" "\<forall>c \<in> set s. 0x20 \<le> byte c"
  shows "unquote (escape_quotes s @ dquote # rest) = Some (s, rest)"
  using assms
proof (induction s rule: utf8_valid.induct)
  case 1
  then show ?case by simp
next
  case (2 b src)
  have nb: "b \<noteq> bslash" and nctl: "\<not> byte b < 0x20" using 2(4,5) by auto
  show ?case
  proof (cases "byte b < 0x80")
    case True
    have ih: "unquote (escape_quotes src @ dquote # rest) = Some (src, rest)"
      using 2(1)[OF True] 2(3,4,5) True by simp
    show ?thesis
      using True nb nctl ih by (simp add: simple_escape_def)
  next
    case False
    define n where "n = utf8_size (b # src)"
    have nz: "n \<noteq> 0" using 2(3) False by (auto simp: n_def Let_def split: if_splits)
    then obtain m where m: "n = Suc m" by (cases n) auto
    have v: "utf8_valid (drop (n - 1) src)"
      using 2(3) False nz by (simp add: n_def[symmetric])
    have sub: "set (drop m src) \<subseteq> set src" by (rule set_drop_subset)
    have ih: "unquote (escape_quotes (drop m src) @ dquote # rest) = Some (drop m src, rest)"
      using 2(2)[OF False n_def nz v] 2(4,5) sub m by auto
    have hi: "\<forall>c \<in> set (take m src). 0x80 \<le> byte c"
      using utf8_size_tail_high[of b src m] False n_def m by simp
    have "dquote \<notin> set (take m src)" using hi by auto
    then have tk: "escape_quotes (take m src) = take m src" by (rule escape_quotes_id)
    have bq: "b \<noteq> dquote" using False by auto
    have "escape_quotes (b # src) = b # escape_quotes (take m src @ drop m src)"
      using bq by simp
    also have "\<dots> = b # take m src @ escape_quotes (drop m src)"
      by (simp only: escape_quotes_append tk)
    finally have e: "escape_quotes (b # src) = b # take m src @ escape_quotes (drop m src)" .
    have u: "unquote (b # take m src @ t) = emit (b # take m src) (unquote t)" for t
      using unquote_multibyte[OF False] n_def m by simp
    show ?thesis
      unfolding e
      using u[of "escape_quotes (drop m src) @ dquote # rest"] ih
      by (simp del: unquote.simps)
  qed
qed

text \<open>
  C9, as the code has it. For every payload that is not empty, whose first byte is not a quote
  character, and that holds no backslash, no control character (a byte below \<^verbatim>\<open>0x20\<close>) and only
  valid UTF-8: UnmarshalJSON escapes the quote characters, finds no doubled escape to collapse,
  wraps the content in quotes, and the JSON decoding of the result succeeds and stores the raw
  payload as the string value.
\<close>

theorem EnforcedString_UnmarshalJSON_unquoted:
  assumes "data \<noteq> []" "hd data \<noteq> dquote"
    and "utf8_valid data" "bslash \<notin> set data" "list_all (\<lambda>c. 0x20 \<le> byte c) data"
  shows "EnforcedString_UnmarshalJSON data = Inr (data, None)"
proof -
  obtain d0 ds where d: "data = d0 # ds" using assms(1) by (cases data) auto
  have d0: "d0 \<noteq> dquote" using assms(2) d by simp
  have ctl: "\<forall>c \<in> set data. 0x20 \<le> byte c" using assms(5) by (simp add: list_all_iff)
  have r: "bytes_ReplaceAll (bytes_ReplaceAll data [dquote] [bslash, dquote])
             [bslash, bslash, dquote] [bslash, dquote] = escape_quotes data"
    using assms(4) by (simp add: ReplaceAll_quote ReplaceAll_collapse_none)
  have u: "unquote (escape_quotes data @ [dquote]) = Some (data, [])"
    using unquote_escape_quotes[OF assms(3,4) ctl, of "[]"] by simp
  have j: "json_Unmarshal_string (dquote # escape_quotes data @ [dquote]) = Inr data"
    using u by (simp add: json_Unmarshal_string_def skip_space_Cons isSpace_def string_value_def at_end_def)
  show ?thesis
    unfolding EnforcedString_UnmarshalJSON_def
    using d0 r[unfolded d] j[unfolded d]
    by (simp add: d Let_def del: bytes_ReplaceAll.simps escape_quotes.simps)
qed

text \<open>The unquoted payload \<^verbatim>\<open>hello "world"\<close> decodes to the text \<^verbatim>\<open>hello "world"\<close>.\<close>

theorem EnforcedString_UnmarshalJSON_unquoted_witness:
  "EnforcedString_UnmarshalJSON (''hello '' @ [dquote] @ ''world'' @ [dquote])
     = Inr (''hello '' @ [dquote] @ ''world'' @ [dquote], None)"
  using EnforcedString_UnmarshalJSON_unquoted[of "''hello '' @ [dquote] @ ''world'' @ [dquote]"]
  by simp

text \<open>
  C9 as stated fails for a payload with a backslash: the four bytes \<^verbatim>\<open>a\"b\<close> decode to the
  three bytes \<^verbatim>\<open>a"b\<close>, not to the raw payload, and the payload that is one backslash does not
  decode at all.
\<close>

theorem EnforcedString_UnmarshalJSON_unquoted_counterexample:
  "EnforcedString_UnmarshalJSON (''a'' @ [bslash, dquote] @ ''b'') = Inr (''a'' @ [dquote] @ ''b'', None)
   \<and> ''a'' @ [dquote] @ ''b'' \<noteq> ''a'' @ [bslash, dquote] @ ''b''
   \<and> EnforcedString_UnmarshalJSON [bslash] = Inr ([], Some JSONError)"
  by (simp add: EnforcedString_UnmarshalJSON_def json_Unmarshal_string_def string_value_def
      skip_space_Cons isSpace_def at_end_def simple_escape_def)

text \<open>
  C10. For every payload of length at least 1, UnmarshalJSON reads the first byte and returns:
  either it stores a decoded string and returns no error, or it returns the decoding error
  (and stores the empty string); it does not panic. On the empty payload the read of
  \<^verbatim>\<open>data[0]\<close>, which no length test guards, panics with an index out of range.
\<close>

theorem EnforcedString_UnmarshalJSON_first_byte:
  "(data \<noteq> [] \<longrightarrow>
      (\<exists>val. EnforcedString_UnmarshalJSON data = Inr (val, None))
      \<or> EnforcedString_UnmarshalJSON data = Inr ([], Some JSONError))
   \<and> EnforcedString_UnmarshalJSON [] = Inl IndexOutOfRange"
proof -
  have "\<And>x. (\<exists>val. (case x of Inl err \<Rightarrow> Inr ([], Some err) | Inr val \<Rightarrow> Inr (val, None))
             = (Inr (val, None) :: panic + (string \<times> error option)))
        \<or> (case x of Inl err \<Rightarrow> Inr ([], Some err) | Inr val \<Rightarrow> Inr (val, None))
             = (Inr ([], Some JSONError) :: panic + (string \<times> error option))"
    subgoal for x by (cases x) (auto intro: error.exhaust)
    done
  then show ?thesis
    by (cases data) (simp_all add: EnforcedString_UnmarshalJSON_def Let_def del: bytes_ReplaceAll.simps)
qed

theorem EnforcedString_UnmarshalJSON_first_byte_witness:
  "EnforcedString_UnmarshalJSON ''1'' = Inr (''1'', None)"
  using EnforcedString_UnmarshalJSON_first_byte[of "''1''"]
  by (simp add: EnforcedString_UnmarshalJSON_def json_Unmarshal_string_def string_value_def
      skip_space_Cons isSpace_def at_end_def)



section \<open>Structs of optional parameters\<close>

text \<open>
  The parameter structs of \<^verbatim>\<open>models.go\<close> have fields that are pointers to \<^verbatim>\<open>string\<close>, \<^verbatim>\<open>bool\<close>
  and \<^verbatim>\<open>int\<close>, each with a struct tag. \<^verbatim>\<open>json.Marshal\<close> sees such a struct as the list of its
  fields, in declaration order: the name in the tag, the \<^verbatim>\<open>string\<close> and \<^verbatim>\<open>omitempty\<close> options of
  the tag, and the pointer (\<open>None\<close> is nil). A field tagged \<^verbatim>\<open>json:"-"\<close> is no field for
  \<^verbatim>\<open>encoding/json\<close> and is not in the list. A Go \<^verbatim>\<open>int\<close> is an integer; no arithmetic is done on
  one here.
\<close>

datatype fvalue = VString string | VBool bool | VInt int

record field =
  f_name :: string
  f_quoted :: bool
  f_omitempty :: bool
  f_value :: "fvalue option"

text \<open>\<^verbatim>\<open>strconv.AppendInt(b, i, 10)\<close>.\<close>

definition digit :: "nat \<Rightarrow> char" where
  "digit n = ''0123456789'' ! n"

fun utoa :: "nat \<Rightarrow> string" where
  "utoa n = (if n < 10 then [digit n] else utoa (n div 10) @ [digit (n mod 10)])"

declare utoa.simps [simp del]

definition itoa :: "int \<Rightarrow> string" where
  "itoa i = (if i < 0 then CHR ''-'' # utoa (nat (- i)) else utoa (nat i))"

text \<open>
  The encoders of the field types. With the \<^verbatim>\<open>string\<close> option a bool or an int is written
  between quotes, and a string is encoded twice (the second time without the escaping of
  \<^verbatim>\<open><\<close>, \<^verbatim>\<open>>\<close> and \<^verbatim>\<open>&\<close>, of which an encoded string has none left). A nil pointer that is not
  omitted is written as \<^verbatim>\<open>null\<close>.
\<close>

definition mayAppendQuote :: "bool \<Rightarrow> string" where
  "mayAppendQuote q = (if q then [dquote] else [])"

definition encode_value :: "bool \<Rightarrow> fvalue \<Rightarrow> string" where
  "encode_value q v =
     (case v of
        VString s \<Rightarrow> if q then appendString (appendString s) else appendString s
      | VBool b \<Rightarrow> mayAppendQuote q @ (if b then ''true'' else ''false'') @ mayAppendQuote q
      | VInt i \<Rightarrow> mayAppendQuote q @ itoa i @ mayAppendQuote q)"

definition encode_ptr :: "bool \<Rightarrow> fvalue option \<Rightarrow> string" where
  "encode_ptr q p = (case p of None \<Rightarrow> ''null'' | Some v \<Rightarrow> encode_value q v)"

definition isEmptyValue :: "fvalue option \<Rightarrow> bool" where
  "isEmptyValue p = (p = None)"

text \<open>
  The struct encoder: the fields that are not omitted, each as the quoted name, a colon and the
  value, between braces and separated by commas.
\<close>

definition encode_field :: "field \<Rightarrow> string" where
  "encode_field f = appendString (f_name f) @ '':'' @ encode_ptr (f_quoted f) (f_value f)"

definition emitted :: "field \<Rightarrow> bool" where
  "emitted f = (\<not> (f_omitempty f \<and> isEmptyValue (f_value f)))"

definition json_Marshal_struct :: "field list \<Rightarrow> error + string" where
  "json_Marshal_struct fs = Inr (''{'' @ join (map encode_field (filter emitted fs)) '','' @ ''}'')"



section \<open>\<^verbatim>\<open>models.go\<close>: GetQueryParams\<close>

text \<open>
  \<^verbatim>\<open>func GetQueryParams(s interface{}) (map[string]string, error)\<close>. The first argument is what
  \<^verbatim>\<open>json.Marshal\<close> does for the dynamic type of \<open>s\<close>: \<open>json_Marshal_struct\<close> on the fields of a
  struct with no \<^verbatim>\<open>MarshalJSON\<close> method, the method for a type that has one (Marshal compacts
  what the method returns, which changes nothing in bytes that Marshal itself has written).
\<close>

definition GetQueryParams :: "('a \<Rightarrow> error + string) \<Rightarrow> 'a \<Rightarrow> error + (string \<rightharpoonup> string)" where
  "GetQueryParams json_Marshal s =
     (case json_Marshal s of
        Inl err \<Rightarrow> Inl err
      | Inr b \<Rightarrow>
          (case json_Unmarshal_map b of
             Inl err \<Rightarrow> Inl err
           | Inr res \<Rightarrow> Inr res))"


subsection \<open>Decoding an encoded struct into a map of strings\<close>

text \<open>The text that the map receives for a field's value.\<close>

definition wire_text :: "bool \<Rightarrow> fvalue \<Rightarrow> string" where
  "wire_text q v =
     (case v of
        VString s \<Rightarrow> if q then utf8_coerce (appendString s) else utf8_coerce s
      | VBool b \<Rightarrow> if b then ''true'' else ''false''
      | VInt i \<Rightarrow> itoa i)"

definition ptr_text :: "bool \<Rightarrow> fvalue option \<Rightarrow> string" where
  "ptr_text q p = (case p of None \<Rightarrow> [] | Some v \<Rightarrow> wire_text q v)"

text \<open>
  A field whose value is written as a string literal or as \<^verbatim>\<open>null\<close>: a bool or an int only with
  the \<^verbatim>\<open>string\<close> option. Any other value cannot be stored in a \<^verbatim>\<open>map[string]string\<close>.
\<close>

definition stringy :: "field \<Rightarrow> bool" where
  "stringy f = (case f_value f of Some (VBool _) \<Rightarrow> f_quoted f | Some (VInt _) \<Rightarrow> f_quoted f | _ \<Rightarrow> True)"

definition member_of :: "field \<Rightarrow> string \<times> string" where
  "member_of f = (utf8_coerce (f_name f), ptr_text (f_quoted f) (f_value f))"

lemma unquote_html_safe:
  "list_all html_safe s \<Longrightarrow> unquote (s @ dquote # t) = Some (s, t)"
  by (induction s) (auto simp: html_safe_def)

lemma digit_html_safe: "n < 10 \<Longrightarrow> html_safe (digit n)"
proof -
  have "\<forall>n<10. html_safe (digit n)"
    by (simp add: numeral_eq_Suc All_less_Suc digit_def html_safe_def)
  then show "n < 10 \<Longrightarrow> html_safe (digit n)" by blast
qed

lemma digit_not_space: "n < 10 \<Longrightarrow> \<not> isSpace (digit n)"
proof -
  have "\<forall>n<10. \<not> isSpace (digit n)"
    by (simp add: numeral_eq_Suc All_less_Suc digit_def isSpace_def)
  then show "n < 10 \<Longrightarrow> \<not> isSpace (digit n)" by blast
qed

lemma utoa_html_safe: "list_all html_safe (utoa n)"
proof (induction n rule: utoa.induct)
  case (1 n)
  show ?case
  proof (cases "n < 10")
    case True
    then show ?thesis by (subst utoa.simps) (simp add: digit_html_safe)
  next
    case False
    then show ?thesis using 1 by (subst utoa.simps) (simp add: digit_html_safe)
  qed
qed

lemma utoa_hd: "utoa n \<noteq> [] \<and> \<not> isSpace (hd (utoa n))"
proof (induction n rule: utoa.induct)
  case (1 n)
  show ?case
  proof (cases "n < 10")
    case True
    then show ?thesis by (subst (1 2) utoa.simps) (simp add: digit_not_space)
  next
    case False
    then show ?thesis using 1 by (subst (1 2) utoa.simps) simp
  qed
qed

lemma itoa_html_safe: "list_all html_safe (itoa i)"
  by (simp add: itoa_def utoa_html_safe html_safe_def)

lemma itoa_hd: "itoa i \<noteq> [] \<and> \<not> isSpace (hd (itoa i))"
  using utoa_hd by (simp add: itoa_def isSpace_def)

lemma mayAppendQuote_simps [simp]:
  "mayAppendQuote True = [dquote]" "mayAppendQuote False = []"
  by (simp_all add: mayAppendQuote_def)

lemma encode_ptr_not_space:
  "encode_ptr q p \<noteq> [] \<and> \<not> isSpace (hd (encode_ptr q p))"
proof (cases p)
  case None
  then show ?thesis by (simp add: encode_ptr_def isSpace_def)
next
  case (Some v)
  show ?thesis
  proof (cases v)
    case (VString s)
    then show ?thesis using Some by (simp add: encode_ptr_def encode_value_def appendString_def isSpace_def)
  next
    case (VBool b)
    then show ?thesis using Some
      by (cases q) (simp_all add: encode_ptr_def encode_value_def isSpace_def)
  next
    case (VInt i)
    then show ?thesis using Some itoa_hd[of i]
      by (cases q) (simp_all add: encode_ptr_def encode_value_def isSpace_def)
  qed
qed

lemma skip_space_encode_ptr [simp]:
  "skip_space (encode_ptr q p @ t) = encode_ptr q p @ t"
proof -
  obtain c cs where "encode_ptr q p = c # cs" "\<not> isSpace c"
    using encode_ptr_not_space[of q p] by (cases "encode_ptr q p") auto
  then show ?thesis by (simp add: skip_space_Cons)
qed

lemma string_value_encode_ptr:
  assumes "case p of Some (VBool _) \<Rightarrow> q | Some (VInt _) \<Rightarrow> q | _ \<Rightarrow> True"
  shows "string_value (encode_ptr q p @ t) = Some (ptr_text q p, t)"
proof (cases p)
  case None
  then show ?thesis by (simp add: encode_ptr_def ptr_text_def string_value_def)
next
  case (Some v)
  show ?thesis
  proof (cases v)
    case (VString s)
    then show ?thesis using Some
      by (simp add: encode_ptr_def encode_value_def ptr_text_def wire_text_def)
  next
    case (VBool b)
    then have q using assms Some by simp
    then show ?thesis using Some VBool
      by (simp add: encode_ptr_def encode_value_def ptr_text_def wire_text_def string_value_def)
  next
    case (VInt i)
    then have q using assms Some by simp
    then show ?thesis using Some VInt unquote_html_safe[OF itoa_html_safe, of i t]
      by (simp add: encode_ptr_def encode_value_def ptr_text_def wire_text_def string_value_def)
  qed
qed

lemma object_members_fields:
  assumes "fs \<noteq> []" "list_all stringy fs"
  shows "object_members (join (map encode_field fs) '','' @ CHR ''}'' # rest)
           = Some (map member_of fs, rest)"
  using assms
proof (induction fs rule: induct_list012)
  case 1
  then show ?case by simp
next
  case (2 f)
  have sv: "string_value (encode_ptr (f_quoted f) (f_value f) @ CHR ''}'' # rest)
              = Some (ptr_text (f_quoted f) (f_value f), CHR ''}'' # rest)"
    using 2(2) by (intro string_value_encode_ptr) (simp add: stringy_def)
  show ?case
    apply (subst object_members.simps)
    apply (simp add: encode_field_def appendString_def unquote_appendString_body
        skip_space_Cons isSpace_def sv member_of_def)
    done
next
  case (3 f g hs)
  let ?tail = "join (map encode_field (g # hs)) '','' @ CHR ''}'' # rest"
  have ih: "object_members ?tail = Some (map member_of (g # hs), rest)"
    using 3(2,4) by simp
  have sk: "skip_space ?tail = ?tail"
    by (cases hs) (simp_all add: encode_field_def appendString_def skip_space_Cons isSpace_def)
  have sv: "string_value (encode_ptr (f_quoted f) (f_value f) @ CHR '','' # ?tail)
              = Some (ptr_text (f_quoted f) (f_value f), CHR '','' # ?tail)"
    using 3(4) by (intro string_value_encode_ptr) (simp add: stringy_def)
  show ?case
    apply (subst object_members.simps)
    using ih sk sv
    apply (simp add: encode_field_def appendString_def unquote_appendString_body
        skip_space_Cons isSpace_def member_of_def)
    done
qed

lemma json_Unmarshal_map_fields:
  assumes "list_all stringy fs"
  shows "json_Unmarshal_map (''{'' @ join (map encode_field fs) '','' @ ''}'')
           = Inr (store_members (map member_of fs))"
proof (cases fs)
  case Nil
  then show ?thesis
    by (simp add: json_Unmarshal_map_def skip_space_Cons isSpace_def at_end_def store_members_def)
next
  case (Cons f gs)
  have hd: "join (map encode_field fs) '','' @ ''}''
              = dquote # tl (join (map encode_field fs) '','' @ ''}'')"
    using Cons by (cases gs) (simp_all add: encode_field_def appendString_def)
  have om: "object_members (join (map encode_field fs) '','' @ ''}'') = Some (map member_of fs, [])"
    using object_members_fields[of fs "[]"] assms Cons by simp
  show ?thesis
    unfolding json_Unmarshal_map_def
    apply (simp add: skip_space_Cons isSpace_def)
    apply (subst hd)
    apply (simp add: skip_space_Cons isSpace_def)
    apply (subst hd[symmetric])
    apply (simp add: om at_end_def)
    done
qed

lemma store_members_map_of: "store_members kvs = map_of (rev kvs)"
proof -
  have "foldl (\<lambda>m (k, v). m(k \<mapsto> v)) m0 kvs = m0 ++ map_of (rev kvs)" for m0
    by (induction kvs arbitrary: m0) (auto simp: fun_eq_iff map_add_def split: option.splits)
  then show ?thesis by (simp add: store_members_def)
qed

lemma map_of_rev_distinct: "distinct (map fst xs) \<Longrightarrow> map_of (rev xs) = map_of xs"
proof (induction xs)
  case Nil
  then show ?case by simp
next
  case (Cons x xs)
  obtain a b where x: "x = (a, b)" by (cases x)
  have na: "map_of xs a = None"
    using Cons.prems x by (simp add: map_of_eq_None_iff)
  have "map_of (rev (x # xs)) = map_of [x] ++ map_of xs"
    using Cons by simp
  also have "\<dots> = map_of (x # xs)"
    using na by (auto simp: x fun_eq_iff map_add_def split: option.splits)
  finally show ?case .
qed

lemma store_members_distinct:
  "distinct (map fst kvs) \<Longrightarrow> store_members kvs = map_of kvs"
  by (simp add: store_members_map_of map_of_rev_distinct)

text \<open>
  The entries of the fields that are set: the name of the field and the text of its value, in
  declaration order.
\<close>

definition entries :: "field list \<Rightarrow> (string \<times> string) list" where
  "entries fs = concat (map (\<lambda>f. case f_value f of None \<Rightarrow> [] | Some v \<Rightarrow> [(f_name f, wire_text (f_quoted f) v)]) fs)"

text \<open>
  A field tagged as the comment of GetQueryParams asks:
  \<^verbatim>\<open>json:"<name>,string,omitempty"\<close> on a bool or an int, \<^verbatim>\<open>omitempty\<close> on every field; a name in
  a struct tag is valid UTF-8.
\<close>

definition well_tagged :: "field \<Rightarrow> bool" where
  "well_tagged f = (utf8_valid (f_name f) \<and> f_omitempty f \<and> stringy f)"

lemma GetQueryParams_struct:
  assumes "list_all stringy fs"
  shows "GetQueryParams json_Marshal_struct fs = Inr (store_members (map member_of (filter emitted fs)))"
proof -
  have "list_all stringy (filter emitted fs)"
    using assms by (simp add: list_all_iff)
  from json_Unmarshal_map_fields[OF this] show ?thesis
    by (simp add: GetQueryParams_def json_Marshal_struct_def)
qed

lemma members_entries:
  "list_all well_tagged fs \<Longrightarrow> map member_of (filter emitted fs) = entries fs"
  by (induction fs)
     (auto simp: entries_def emitted_def isEmptyValue_def well_tagged_def member_of_def
       ptr_text_def utf8_coerce_valid)

lemma fst_entries: "map fst (entries fs) = map f_name (filter (\<lambda>f. f_value f \<noteq> None) fs)"
  by (induction fs) (auto simp: entries_def)

lemma entries_distinct: "distinct (map f_name fs) \<Longrightarrow> distinct (map fst (entries fs))"
  by (simp add: fst_entries distinct_map_filter)

lemma entries_present:
  "f \<in> set fs \<Longrightarrow> f_value f = Some v \<Longrightarrow> (f_name f, wire_text (f_quoted f) v) \<in> set (entries fs)"
  by (induction fs) (auto simp: entries_def)

lemma entries_dom:
  "dom (map_of (entries fs)) = f_name ` {f \<in> set fs. f_value f \<noteq> None}"
proof -
  have "dom (map_of (entries fs)) = set (map fst (entries fs))"
    by (simp add: dom_map_of_conv_image_fst)
  also have "\<dots> = f_name ` {f \<in> set fs. f_value f \<noteq> None}"
    by (simp only: fst_entries set_map set_filter)
  finally show ?thesis .
qed

lemma entries_lookup:
  assumes "distinct (map f_name fs)" and f: "f \<in> set fs"
  shows "map_of (entries fs) (f_name f) = map_option (wire_text (f_quoted f)) (f_value f)"
proof (cases "f_value f")
  case None
  have "f_name f \<notin> f_name ` {g \<in> set fs. f_value g \<noteq> None}"
  proof
    assume "f_name f \<in> f_name ` {g \<in> set fs. f_value g \<noteq> None}"
    then obtain g where g: "g \<in> set fs" "f_value g \<noteq> None" "f_name g = f_name f" by auto
    then have "g = f" using assms(1) f by (meson distinct_map inj_onD)
    then show False using g(2) None by simp
  qed
  then have "map_of (entries fs) (f_name f) = None"
    using entries_dom[of fs] by (metis domIff)
  then show ?thesis using None by simp
next
  case (Some v)
  then show ?thesis
    using entries_present[OF f Some] entries_distinct[OF assms(1)] by simp
qed

text \<open>
  An encoded struct of well-tagged fields with distinct names decodes, with no error, to the
  map of its entries.
\<close>

lemma GetQueryParams_struct_map:
  assumes "distinct (map f_name fs)" and "list_all well_tagged fs"
  shows "GetQueryParams json_Marshal_struct fs = Inr (map_of (entries fs))"
proof -
  have st: "list_all stringy fs"
    using assms(2) by (simp add: list_all_iff well_tagged_def)
  show ?thesis
    using GetQueryParams_struct[OF st] members_entries[OF assms(2)]
      store_members_distinct[OF entries_distinct[OF assms(1)]]
    by simp
qed

text \<open>
  C6, as the code has it. For every options record that \<^verbatim>\<open>json.Marshal\<close> encodes as a struct
  and whose fields are all pointers to a string, a bool or an integer, with distinct wire keys,
  \<^verbatim>\<open>omitempty\<close> on every field and the \<^verbatim>\<open>string\<close> option on every bool and integer field:
  GetQueryParams returns no error and a map that has, for each field, no entry under its wire
  key when the field is absent (the pointer is nil) and the text of its value when it is
  present, and no other entry. The text (\<open>wire_text\<close>) is \<^verbatim>\<open>true\<close> or \<^verbatim>\<open>false\<close> for a bool, the
  decimal numeral for an integer, and for a string the string with every byte that is not valid
  UTF-8 replaced by U+FFFD (its JSON literal, quotes included, when the string field carries the
  \<^verbatim>\<open>string\<close> option). The map is a Go map, which has no order of entries.
\<close>

theorem GetQueryParams_entries:
  assumes "distinct (map f_name fs)" and "list_all well_tagged fs"
  shows "GetQueryParams json_Marshal_struct fs = Inr (map_of (entries fs))
         \<and> (\<forall>f \<in> set fs. map_of (entries fs) (f_name f)
                                = map_option (wire_text (f_quoted f)) (f_value f))
         \<and> dom (map_of (entries fs)) = f_name ` {f \<in> set fs. f_value f \<noteq> None}"
  using GetQueryParams_struct_map[OF assms] entries_lookup[OF assms(1)] entries_dom[of fs]
  by blast



section \<open>\<^verbatim>\<open>models.go\<close>: GetUsersParams and GetGroupsParams\<close>

text \<open>
  The three kinds of field of the parameter structs: a \<^verbatim>\<open>*string\<close> tagged
  \<^verbatim>\<open>json:"<name>,omitempty"\<close>, and a \<^verbatim>\<open>*bool\<close> and a \<^verbatim>\<open>*int\<close> tagged
  \<^verbatim>\<open>json:"<name>,string,omitempty"\<close>.
\<close>

definition string_omitempty :: "string \<Rightarrow> string option \<Rightarrow> field" where
  "string_omitempty name p =
     \<lparr>f_name = name, f_quoted = False, f_omitempty = True, f_value = map_option VString p\<rparr>"

definition bool_string_omitempty :: "string \<Rightarrow> bool option \<Rightarrow> field" where
  "bool_string_omitempty name p =
     \<lparr>f_name = name, f_quoted = True, f_omitempty = True, f_value = map_option VBool p\<rparr>"

definition int_string_omitempty :: "string \<Rightarrow> int option \<Rightarrow> field" where
  "int_string_omitempty name p =
     \<lparr>f_name = name, f_quoted = True, f_omitempty = True, f_value = map_option VInt p\<rparr>"

record GetUsersParams =
  BriefRepresentation :: "bool option"
  Email :: "string option"
  EmailVerified :: "bool option"
  Enabled :: "bool option"
  Exact :: "bool option"
  First :: "int option"
  FirstName :: "string option"
  IDPAlias :: "string option"
  IDPUserID :: "string option"
  LastName :: "string option"
  Max :: "int option"
  Q :: "string option"
  Search :: "string option"
  Username :: "string option"

text \<open>The fields of a GetUsersParams as \<^verbatim>\<open>json.Marshal\<close> sees them, with their tags.\<close>

definition GetUsersParams_fields :: "GetUsersParams \<Rightarrow> field list" where
  "GetUsersParams_fields v =
     [bool_string_omitempty ''briefRepresentation'' (GetUsersParams.BriefRepresentation v),
      string_omitempty ''email'' (GetUsersParams.Email v),
      bool_string_omitempty ''emailVerified'' (GetUsersParams.EmailVerified v),
      bool_string_omitempty ''enabled'' (GetUsersParams.Enabled v),
      bool_string_omitempty ''exact'' (GetUsersParams.Exact v),
      int_string_omitempty ''first'' (GetUsersParams.First v),
      string_omitempty ''firstName'' (GetUsersParams.FirstName v),
      string_omitempty ''idpAlias'' (GetUsersParams.IDPAlias v),
      string_omitempty ''idpUserId'' (GetUsersParams.IDPUserID v),
      string_omitempty ''lastName'' (GetUsersParams.LastName v),
      int_string_omitempty ''max'' (GetUsersParams.Max v),
      string_omitempty ''q'' (GetUsersParams.Q v),
      string_omitempty ''search'' (GetUsersParams.Search v),
      string_omitempty ''username'' (GetUsersParams.Username v)]"

text \<open>\<^verbatim>\<open>json.Marshal\<close> of a GetUsersParams, which has no \<^verbatim>\<open>MarshalJSON\<close> method.\<close>

definition json_Marshal_GetUsersParams :: "GetUsersParams \<Rightarrow> error + string" where
  "json_Marshal_GetUsersParams v = json_Marshal_struct (GetUsersParams_fields v)"

record GetGroupsParams =
  BriefRepresentation :: "bool option"
  Exact :: "bool option"
  First :: "int option"
  Full :: "bool option"
  Max :: "int option"
  Q :: "string option"
  Search :: "string option"

definition GetGroupsParams_fields :: "GetGroupsParams \<Rightarrow> field list" where
  "GetGroupsParams_fields v =
     [bool_string_omitempty ''briefRepresentation'' (GetGroupsParams.BriefRepresentation v),
      bool_string_omitempty ''exact'' (GetGroupsParams.Exact v),
      int_string_omitempty ''first'' (GetGroupsParams.First v),
      bool_string_omitempty ''full'' (GetGroupsParams.Full v),
      int_string_omitempty ''max'' (GetGroupsParams.Max v),
      string_omitempty ''q'' (GetGroupsParams.Q v),
      string_omitempty ''search'' (GetGroupsParams.Search v)]"

text \<open>
  Modelled from the spec: \<^verbatim>\<open>BoolP\<close> of \<^verbatim>\<open>utils.go\<close>, which is not among the sources. The derived
  field is the boolean handed to it, so \<^verbatim>\<open>BoolP(v)\<close> is a pointer to \<open>v\<close>.
\<close>

definition BoolP :: "bool \<Rightarrow> bool option" where
  "BoolP v = Some v"

text \<open>
  \<^verbatim>\<open>func (obj GetGroupsParams) MarshalJSON() ([]byte, error)\<close>. The receiver is a copy of the
  caller's struct. \<open>GetGroupsParams_alias obj\<close> is the local \<^verbatim>\<open>a\<close> when \<^verbatim>\<open>json.Marshal(a)\<close> is
  called; \<^verbatim>\<open>Alias\<close> has the fields and tags of GetGroupsParams and no method.
\<close>

definition GetGroupsParams_alias :: "GetGroupsParams \<Rightarrow> GetGroupsParams" where
  "GetGroupsParams_alias obj =
     (let a = obj in
      if GetGroupsParams.BriefRepresentation a \<noteq> None then
        a\<lparr>GetGroupsParams.Full := BoolP (\<not> the (GetGroupsParams.BriefRepresentation a))\<rparr>
      else if GetGroupsParams.Full a \<noteq> None then
        a\<lparr>GetGroupsParams.BriefRepresentation := BoolP (\<not> the (GetGroupsParams.Full a))\<rparr>
      else a)"

definition GetGroupsParams_MarshalJSON :: "GetGroupsParams \<Rightarrow> error + string" where
  "GetGroupsParams_MarshalJSON obj = json_Marshal_struct (GetGroupsParams_fields (GetGroupsParams_alias obj))"

subsection \<open>What GetQueryParams returns for them\<close>

lemma well_tagged_simps [simp]:
  "well_tagged (string_omitempty n p) = utf8_valid n"
  "well_tagged (bool_string_omitempty n b) = utf8_valid n"
  "well_tagged (int_string_omitempty n i) = utf8_valid n"
  by (auto simp: well_tagged_def stringy_def string_omitempty_def bool_string_omitempty_def
      int_string_omitempty_def split: option.splits)

lemma field_simps [simp]:
  "f_name (string_omitempty n p) = n" "f_value (string_omitempty n p) = map_option VString p"
  "f_quoted (string_omitempty n p) = False"
  "f_name (bool_string_omitempty n b) = n" "f_value (bool_string_omitempty n b) = map_option VBool b"
  "f_quoted (bool_string_omitempty n b) = True"
  "f_name (int_string_omitempty n i) = n" "f_value (int_string_omitempty n i) = map_option VInt i"
  "f_quoted (int_string_omitempty n i) = True"
  by (simp_all add: string_omitempty_def bool_string_omitempty_def int_string_omitempty_def)

lemma GetUsersParams_fields_ok:
  "distinct (map f_name (GetUsersParams_fields v))" "list_all well_tagged (GetUsersParams_fields v)"
  by (simp_all add: GetUsersParams_fields_def)

lemma GetGroupsParams_fields_ok:
  "distinct (map f_name (GetGroupsParams_fields v))" "list_all well_tagged (GetGroupsParams_fields v)"
  by (simp_all add: GetGroupsParams_fields_def)

lemma itoa_10: "itoa 10 = ''10''"
  by (simp add: itoa_def utoa.simps[of 10] utoa.simps[of "Suc 0"] digit_def)

text \<open>
  A GetUsersParams with \<^verbatim>\<open>Max = 10\<close> and every other field absent, \<^verbatim>\<open>Search\<close> among them,
  projects to exactly \<^verbatim>\<open>{"max": "10"}\<close>.
\<close>

theorem GetQueryParams_entries_witness:
  "GetQueryParams json_Marshal_GetUsersParams
     \<lparr>GetUsersParams.BriefRepresentation = None, Email = None, EmailVerified = None,
      Enabled = None, Exact = None, First = None, FirstName = None, IDPAlias = None,
      IDPUserID = None, LastName = None, Max = Some 10, Q = None, Search = None,
      Username = None\<rparr>
   = Inr [''max'' \<mapsto> ''10'']"
proof -
  let ?v = "\<lparr>GetUsersParams.BriefRepresentation = None, Email = None, EmailVerified = None,
      Enabled = None, Exact = None, First = None, FirstName = None, IDPAlias = None,
      IDPUserID = None, LastName = None, Max = Some 10, Q = None, Search = None,
      Username = None\<rparr>"
  have "GetQueryParams json_Marshal_GetUsersParams ?v
          = GetQueryParams json_Marshal_struct (GetUsersParams_fields ?v)"
    by (simp add: GetQueryParams_def json_Marshal_GetUsersParams_def)
  also have "\<dots> = Inr (map_of (entries (GetUsersParams_fields ?v)))"
    using GetQueryParams_entries[OF GetUsersParams_fields_ok, of ?v] by blast
  also have "\<dots> = Inr [''max'' \<mapsto> ''10'']"
    by (simp add: GetUsersParams_fields_def entries_def wire_text_def itoa_10)
  finally show ?thesis .
qed

text \<open>
  C6 as stated fails for GetGroupsParams, whose MarshalJSON derives one of
  \<^verbatim>\<open>briefRepresentation\<close> and \<^verbatim>\<open>full\<close> from the other: with \<^verbatim>\<open>BriefRepresentation = true\<close> and
  \<^verbatim>\<open>Full\<close> absent, the map has the entry \<^verbatim>\<open>"full": "false"\<close> for the absent field.
\<close>

theorem GetQueryParams_entries_counterexample:
  "GetGroupsParams.Full
     \<lparr>GetGroupsParams.BriefRepresentation = Some True, Exact = None, First = None, Full = None,
      Max = None, Q = None, Search = None\<rparr> = None
   \<and> GetQueryParams GetGroupsParams_MarshalJSON
     \<lparr>GetGroupsParams.BriefRepresentation = Some True, Exact = None, First = None, Full = None,
      Max = None, Q = None, Search = None\<rparr>
   = Inr [''briefRepresentation'' \<mapsto> ''true'', ''full'' \<mapsto> ''false'']"
proof -
  let ?g = "\<lparr>GetGroupsParams.BriefRepresentation = Some True, Exact = None, First = None,
      Full = None, Max = None, Q = None, Search = None\<rparr>"
  have "GetQueryParams GetGroupsParams_MarshalJSON ?g
          = GetQueryParams json_Marshal_struct (GetGroupsParams_fields (GetGroupsParams_alias ?g))"
    by (simp add: GetQueryParams_def GetGroupsParams_MarshalJSON_def)
  also have "\<dots> = Inr (map_of (entries (GetGroupsParams_fields (GetGroupsParams_alias ?g))))"
    using GetQueryParams_struct_map[OF GetGroupsParams_fields_ok] by simp
  also have "\<dots> = Inr [''briefRepresentation'' \<mapsto> ''true'', ''full'' \<mapsto> ''false'']"
    by (auto simp: GetGroupsParams_fields_def GetGroupsParams_alias_def BoolP_def Let_def
        entries_def wire_text_def fun_eq_iff)
  finally show ?thesis by simp
qed

subsection \<open>The aliasing of GetGroupsParams\<close>

text \<open>A bool written with the \<^verbatim>\<open>string\<close> option, as the map of strings receives it.\<close>

definition bool_text :: "bool \<Rightarrow> string" where
  "bool_text b = (if b then ''true'' else ''false'')"

lemma GetQueryParams_GetGroupsParams:
  "GetQueryParams GetGroupsParams_MarshalJSON obj
     = Inr (map_of (entries (GetGroupsParams_fields (GetGroupsParams_alias obj))))"
proof -
  have "GetQueryParams GetGroupsParams_MarshalJSON obj
          = GetQueryParams json_Marshal_struct (GetGroupsParams_fields (GetGroupsParams_alias obj))"
    by (simp add: GetQueryParams_def GetGroupsParams_MarshalJSON_def)
  then show ?thesis
    using GetQueryParams_struct_map[OF GetGroupsParams_fields_ok] by simp
qed

lemma GetGroupsParams_lookup:
  "map_of (entries (GetGroupsParams_fields a)) ''briefRepresentation''
     = map_option bool_text (GetGroupsParams.BriefRepresentation a)"
  "map_of (entries (GetGroupsParams_fields a)) ''full''
     = map_option bool_text (GetGroupsParams.Full a)"
proof -
  have b: "bool_string_omitempty ''briefRepresentation'' (GetGroupsParams.BriefRepresentation a)
             \<in> set (GetGroupsParams_fields a)"
    and f: "bool_string_omitempty ''full'' (GetGroupsParams.Full a) \<in> set (GetGroupsParams_fields a)"
    by (simp_all add: GetGroupsParams_fields_def)
  show "map_of (entries (GetGroupsParams_fields a)) ''briefRepresentation''
     = map_option bool_text (GetGroupsParams.BriefRepresentation a)"
    using entries_lookup[OF GetGroupsParams_fields_ok(1) b]
    by (cases "GetGroupsParams.BriefRepresentation a") (simp_all add: wire_text_def bool_text_def)
  show "map_of (entries (GetGroupsParams_fields a)) ''full''
     = map_option bool_text (GetGroupsParams.Full a)"
    using entries_lookup[OF GetGroupsParams_fields_ok(1) f]
    by (cases "GetGroupsParams.Full a") (simp_all add: wire_text_def bool_text_def)
qed

text \<open>
  C3. MarshalJSON of a GetGroupsParams returns bytes and no error, and the bytes decode to a
  map of their keys. If BriefRepresentation is set, Full is derived as its negation, whatever
  Full held, and both keys are in the output. Else if Full is set, BriefRepresentation is
  derived as the negation of Full, and both keys are in the output. If neither is set, the
  struct is encoded as it is and neither key is in the output.
\<close>

theorem GetGroupsParams_MarshalJSON_aliasing:
  "\<exists>b m. GetGroupsParams_MarshalJSON obj = Inr b \<and> json_Unmarshal_map b = Inr m
     \<and> (\<forall>v. GetGroupsParams.BriefRepresentation obj = Some v \<longrightarrow>
            GetGroupsParams.BriefRepresentation (GetGroupsParams_alias obj) = Some v
          \<and> GetGroupsParams.Full (GetGroupsParams_alias obj) = Some (\<not> v)
          \<and> m ''briefRepresentation'' = Some (bool_text v)
          \<and> m ''full'' = Some (bool_text (\<not> v)))
     \<and> (\<forall>v. GetGroupsParams.BriefRepresentation obj = None \<and> GetGroupsParams.Full obj = Some v \<longrightarrow>
            GetGroupsParams.Full (GetGroupsParams_alias obj) = Some v
          \<and> GetGroupsParams.BriefRepresentation (GetGroupsParams_alias obj) = Some (\<not> v)
          \<and> m ''full'' = Some (bool_text v)
          \<and> m ''briefRepresentation'' = Some (bool_text (\<not> v)))
     \<and> (GetGroupsParams.BriefRepresentation obj = None \<and> GetGroupsParams.Full obj = None \<longrightarrow>
            GetGroupsParams_alias obj = obj
          \<and> m ''briefRepresentation'' = None \<and> m ''full'' = None)"
proof -
  let ?a = "GetGroupsParams_alias obj"
  let ?m = "map_of (entries (GetGroupsParams_fields ?a))"
  obtain b where b: "GetGroupsParams_MarshalJSON obj = Inr b"
    by (simp add: GetGroupsParams_MarshalJSON_def json_Marshal_struct_def)
  have m: "json_Unmarshal_map b = Inr ?m"
    using GetQueryParams_GetGroupsParams[of obj] b
    by (simp add: GetQueryParams_def split: sum.splits)
  have 1: "GetGroupsParams.BriefRepresentation obj = Some v \<Longrightarrow>
            GetGroupsParams.BriefRepresentation ?a = Some v \<and> GetGroupsParams.Full ?a = Some (\<not> v)" for v
    by (simp add: GetGroupsParams_alias_def BoolP_def Let_def)
  have 2: "GetGroupsParams.BriefRepresentation obj = None \<Longrightarrow> GetGroupsParams.Full obj = Some v \<Longrightarrow>
            GetGroupsParams.Full ?a = Some v \<and> GetGroupsParams.BriefRepresentation ?a = Some (\<not> v)" for v
    by (simp add: GetGroupsParams_alias_def BoolP_def Let_def)
  have 3: "GetGroupsParams.BriefRepresentation obj = None \<Longrightarrow> GetGroupsParams.Full obj = None \<Longrightarrow>
            ?a = obj"
    by (simp add: GetGroupsParams_alias_def BoolP_def Let_def)
  show ?thesis
    apply (rule exI[of _ b], rule exI[of _ ?m])
    using b m 1 2 3 GetGroupsParams_lookup[of ?a]
    apply (intro conjI allI impI)
    apply simp_all
    done
qed

text \<open>With BriefRepresentation and Full both \<^verbatim>\<open>true\<close>, Full is overwritten by \<^verbatim>\<open>false\<close>.\<close>

theorem GetGroupsParams_MarshalJSON_aliasing_witness:
  "GetGroupsParams.Full
     (GetGroupsParams_alias
        \<lparr>GetGroupsParams.BriefRepresentation = Some True, Exact = None, First = None,
         Full = Some True, Max = None, Q = None, Search = None\<rparr>) = Some False"
  using GetGroupsParams_MarshalJSON_aliasing[of
      "\<lparr>GetGroupsParams.BriefRepresentation = Some True, Exact = None, First = None,
         Full = Some True, Max = None, Q = None, Search = None\<rparr>"]
  by auto



section \<open>\<^verbatim>\<open>models.go\<close>: TokenOptions\<close>

text \<open>
  Modelled from the spec: \<^verbatim>\<open>StringP\<close>, \<^verbatim>\<open>NilOrEmpty\<close> and \<^verbatim>\<open>NilOrEmptySlice\<close> of \<^verbatim>\<open>utils.go\<close>,
  which is not among the sources. The singular field is populated with the joined string, so
  \<^verbatim>\<open>StringP(v)\<close> is a pointer to \<open>v\<close>; a value is absent when the pointer is nil or what it
  points to has length 0.
\<close>

definition StringP :: "string \<Rightarrow> string option" where
  "StringP v = Some v"

definition NilOrEmpty :: "string option \<Rightarrow> bool" where
  "NilOrEmpty v = (v = None \<or> length (the v) = 0)"

definition NilOrEmptySlice :: "string list option \<Rightarrow> bool" where
  "NilOrEmptySlice v = (v = None \<or> length (the v) = 0)"

record TokenOptions =
  ClientID :: "string option"
  ClientSecret :: "string option"
  GrantType :: "string option"
  RefreshToken :: "string option"
  Scopes :: "string list option"
  Scope :: "string option"
  ResponseTypes :: "string list option"
  ResponseType :: "string option"
  Permission :: "string option"
  Username :: "string option"
  Password :: "string option"
  Totp :: "string option"
  Code :: "string option"
  RedirectURI :: "string option"
  ClientAssertionType :: "string option"
  ClientAssertion :: "string option"
  SubjectToken :: "string option"
  RequestedSubject :: "string option"
  Audience :: "string option"
  RequestedTokenType :: "string option"

text \<open>
  The fields \<^verbatim>\<open>json.Marshal\<close> sees: \<^verbatim>\<open>ClientSecret\<close>, \<^verbatim>\<open>Scopes\<close> and \<^verbatim>\<open>ResponseTypes\<close> are tagged
  \<^verbatim>\<open>json:"-"\<close> and are not among them.
\<close>

definition TokenOptions_fields :: "TokenOptions \<Rightarrow> field list" where
  "TokenOptions_fields t =
     [string_omitempty ''client_id'' (TokenOptions.ClientID t),
      string_omitempty ''grant_type'' (TokenOptions.GrantType t),
      string_omitempty ''refresh_token'' (TokenOptions.RefreshToken t),
      string_omitempty ''scope'' (TokenOptions.Scope t),
      string_omitempty ''response_type'' (TokenOptions.ResponseType t),
      string_omitempty ''permission'' (TokenOptions.Permission t),
      string_omitempty ''username'' (TokenOptions.Username t),
      string_omitempty ''password'' (TokenOptions.Password t),
      string_omitempty ''totp'' (TokenOptions.Totp t),
      string_omitempty ''code'' (TokenOptions.Code t),
      string_omitempty ''redirect_uri'' (TokenOptions.RedirectURI t),
      string_omitempty ''client_assertion_type'' (TokenOptions.ClientAssertionType t),
      string_omitempty ''client_assertion'' (TokenOptions.ClientAssertion t),
      string_omitempty ''subject_token'' (TokenOptions.SubjectToken t),
      string_omitempty ''requested_subject'' (TokenOptions.RequestedSubject t),
      string_omitempty ''audience'' (TokenOptions.Audience t),
      string_omitempty ''requested_token_type'' (TokenOptions.RequestedTokenType t)]"

text \<open>
  \<^verbatim>\<open>m, _ := json.Marshal(t); var res map[string]string; _ = json.Unmarshal(m, &res)\<close>: both
  errors are dropped. \<open>res\<close> stays nil when Marshal fails or Unmarshal rejects the syntax of the
  bytes; for the bytes of a struct of well-tagged fields neither happens
  (\<open>Unmarshal_ignoring_errors_struct\<close> below).
\<close>

definition Unmarshal_ignoring_errors :: "error + string \<Rightarrow> (string \<rightharpoonup> string)" where
  "Unmarshal_ignoring_errors m =
     (case m of
        Inl _ \<Rightarrow> Map.empty
      | Inr b \<Rightarrow> (case json_Unmarshal_map b of Inl _ \<Rightarrow> Map.empty | Inr res \<Rightarrow> res))"

text \<open>
  \<^verbatim>\<open>func (t *TokenOptions) FormData() map[string]string\<close>. The receiver is a pointer: the result
  is the struct \<^verbatim>\<open>*t\<close> after the call, and the map returned.
\<close>

definition TokenOptions_FormData :: "TokenOptions \<Rightarrow> TokenOptions \<times> (string \<rightharpoonup> string)" where
  "TokenOptions_FormData t0 =
     (let t1 = (if \<not> NilOrEmptySlice (TokenOptions.Scopes t0)
                then t0\<lparr>TokenOptions.Scope := StringP (join (elems (TokenOptions.Scopes t0)) '' '')\<rparr>
                else t0);
          t2 = (if \<not> NilOrEmptySlice (TokenOptions.ResponseTypes t1)
                then t1\<lparr>TokenOptions.ResponseType :=
                          StringP (join (elems (TokenOptions.ResponseTypes t1)) '' '')\<rparr>
                else t1);
          t3 = (if NilOrEmpty (TokenOptions.ResponseType t2)
                then t2\<lparr>TokenOptions.ResponseType := StringP ''token''\<rparr>
                else t2);
          m = json_Marshal_struct (TokenOptions_fields t3)
      in (t3, Unmarshal_ignoring_errors m))"

subsection \<open>The map FormData returns\<close>

lemma TokenOptions_fields_ok:
  "distinct (map f_name (TokenOptions_fields t))" "list_all well_tagged (TokenOptions_fields t)"
  by (simp_all add: TokenOptions_fields_def)

lemma Unmarshal_ignoring_errors_struct:
  assumes "distinct (map f_name fs)" and "list_all well_tagged fs"
  shows "Unmarshal_ignoring_errors (json_Marshal_struct fs) = map_of (entries fs)"
  using GetQueryParams_struct_map[OF assms]
  by (simp add: Unmarshal_ignoring_errors_def GetQueryParams_def json_Marshal_struct_def
      split: sum.splits)

lemma string_entry_lookup:
  assumes "distinct (map f_name fs)" and "string_omitempty n p \<in> set fs"
  shows "map_of (entries fs) n = map_option utf8_coerce p"
  using entries_lookup[OF assms]
  by (cases p) (simp_all add: wire_text_def)

lemma TokenOptions_FormData_map:
  "snd (TokenOptions_FormData t) = map_of (entries (TokenOptions_fields (fst (TokenOptions_FormData t))))"
  by (simp add: TokenOptions_FormData_def Let_def Unmarshal_ignoring_errors_struct[OF TokenOptions_fields_ok])

lemma TokenOptions_lookup:
  "map_of (entries (TokenOptions_fields t)) ''scope'' = map_option utf8_coerce (TokenOptions.Scope t)"
  "map_of (entries (TokenOptions_fields t)) ''response_type'' = map_option utf8_coerce (TokenOptions.ResponseType t)"
  by (rule string_entry_lookup[OF TokenOptions_fields_ok(1)], simp add: TokenOptions_fields_def)+

text \<open>The wire keys of TokenOptions.\<close>

definition TokenOptions_keys :: "string list" where
  "TokenOptions_keys =
     [''client_id'', ''grant_type'', ''refresh_token'', ''scope'', ''response_type'', ''permission'',
      ''username'', ''password'', ''totp'', ''code'', ''redirect_uri'', ''client_assertion_type'',
      ''client_assertion'', ''subject_token'', ''requested_subject'', ''audience'',
      ''requested_token_type'']"

lemma TokenOptions_dom:
  "dom (map_of (entries (TokenOptions_fields t))) \<subseteq> set TokenOptions_keys"
proof -
  have "map f_name (TokenOptions_fields t) = TokenOptions_keys"
    by (simp add: TokenOptions_fields_def TokenOptions_keys_def)
  then have "f_name ` set (TokenOptions_fields t) = set TokenOptions_keys"
    by (metis set_map)
  then show ?thesis
    unfolding entries_dom by blast
qed

text \<open>The zero value \<^verbatim>\<open>TokenOptions{}\<close>.\<close>

definition TokenOptions_zero :: TokenOptions where
  "TokenOptions_zero =
     \<lparr>TokenOptions.ClientID = None, ClientSecret = None, GrantType = None, RefreshToken = None,
      Scopes = None, Scope = None, ResponseTypes = None, ResponseType = None, Permission = None,
      Username = None, Password = None, Totp = None, Code = None, RedirectURI = None,
      ClientAssertionType = None, ClientAssertion = None, SubjectToken = None,
      RequestedSubject = None, Audience = None, RequestedTokenType = None\<rparr>"

lemma utf8_coerce_token: "utf8_coerce ''token'' = ''token''"
  by simp

text \<open>
  C5, as the code has it. In the map FormData returns: whenever Scopes is non-empty the
  \<^verbatim>\<open>scope\<close> entry is Scopes joined with a single space, also when Scope had a value of its own;
  when Scopes is nil or empty the \<^verbatim>\<open>scope\<close> entry is the value of Scope, absent if Scope is nil.
  Whenever ResponseTypes is non-empty and its join is not empty the \<^verbatim>\<open>response_type\<close> entry is
  that join, also when ResponseType had a value of its own; when ResponseTypes is nil or empty
  and ResponseType has a non-empty value the entry is that value; in every other case the entry
  is \<^verbatim>\<open>token\<close>: when ResponseTypes is non-empty and its join is empty, whatever ResponseType
  holds, and when ResponseTypes is nil or empty and ResponseType is nil or empty. Each text is
  coerced to valid UTF-8 on its way through JSON. The keys of the map are wire keys of
  TokenOptions: the plural fields have none and are never projected.
\<close>

theorem TokenOptions_FormData_singular:
  "(\<not> NilOrEmptySlice (TokenOptions.Scopes t) \<longrightarrow>
      snd (TokenOptions_FormData t) ''scope''
        = Some (utf8_coerce (join (elems (TokenOptions.Scopes t)) '' '')))
   \<and> (NilOrEmptySlice (TokenOptions.Scopes t) \<longrightarrow>
      snd (TokenOptions_FormData t) ''scope'' = map_option utf8_coerce (TokenOptions.Scope t))
   \<and> (\<not> NilOrEmptySlice (TokenOptions.ResponseTypes t)
        \<and> join (elems (TokenOptions.ResponseTypes t)) '' '' \<noteq> [] \<longrightarrow>
      snd (TokenOptions_FormData t) ''response_type''
        = Some (utf8_coerce (join (elems (TokenOptions.ResponseTypes t)) '' '')))
   \<and> (NilOrEmptySlice (TokenOptions.ResponseTypes t) \<and> \<not> NilOrEmpty (TokenOptions.ResponseType t) \<longrightarrow>
      snd (TokenOptions_FormData t) ''response_type''
        = map_option utf8_coerce (TokenOptions.ResponseType t))
   \<and> ((\<not> NilOrEmptySlice (TokenOptions.ResponseTypes t)
         \<and> join (elems (TokenOptions.ResponseTypes t)) '' '' = [])
        \<or> (NilOrEmptySlice (TokenOptions.ResponseTypes t) \<and> NilOrEmpty (TokenOptions.ResponseType t)) \<longrightarrow>
      snd (TokenOptions_FormData t) ''response_type'' = Some ''token'')
   \<and> dom (snd (TokenOptions_FormData t)) \<subseteq> set TokenOptions_keys"
proof -
  let ?t = "fst (TokenOptions_FormData t)"
  have sc1: "\<not> NilOrEmptySlice (TokenOptions.Scopes t) \<Longrightarrow>
      TokenOptions.Scope ?t = Some (join (elems (TokenOptions.Scopes t)) '' '')"
    by (simp add: TokenOptions_FormData_def Let_def StringP_def)
  have sc2: "NilOrEmptySlice (TokenOptions.Scopes t) \<Longrightarrow> TokenOptions.Scope ?t = TokenOptions.Scope t"
    by (simp add: TokenOptions_FormData_def Let_def StringP_def)
  have rt1: "\<not> NilOrEmptySlice (TokenOptions.ResponseTypes t) \<Longrightarrow>
      join (elems (TokenOptions.ResponseTypes t)) '' '' \<noteq> [] \<Longrightarrow>
      TokenOptions.ResponseType ?t = Some (join (elems (TokenOptions.ResponseTypes t)) '' '')"
    by (simp add: TokenOptions_FormData_def Let_def StringP_def NilOrEmpty_def)
  have rt2: "NilOrEmptySlice (TokenOptions.ResponseTypes t) \<Longrightarrow> \<not> NilOrEmpty (TokenOptions.ResponseType t) \<Longrightarrow>
      TokenOptions.ResponseType ?t = TokenOptions.ResponseType t"
    by (simp add: TokenOptions_FormData_def Let_def StringP_def)
  have rt3: "(\<not> NilOrEmptySlice (TokenOptions.ResponseTypes t)
         \<and> join (elems (TokenOptions.ResponseTypes t)) '' '' = [])
        \<or> (NilOrEmptySlice (TokenOptions.ResponseTypes t) \<and> NilOrEmpty (TokenOptions.ResponseType t)) \<Longrightarrow>
      TokenOptions.ResponseType ?t = Some ''token''"
    by (auto simp: TokenOptions_FormData_def Let_def StringP_def NilOrEmpty_def)
  have m: "snd (TokenOptions_FormData t) = map_of (entries (TokenOptions_fields ?t))"
    by (rule TokenOptions_FormData_map)
  show ?thesis
    unfolding m TokenOptions_lookup
    using sc1 sc2 rt1 rt2 rt3 TokenOptions_dom[of ?t] utf8_coerce_token
    by (intro conjI impI) simp_all
qed

text \<open>Scopes \<^verbatim>\<open>openid\<close> and \<^verbatim>\<open>profile\<close> project to the entry \<^verbatim>\<open>scope\<close>: \<^verbatim>\<open>openid profile\<close>.\<close>

theorem TokenOptions_FormData_singular_witness:
  "snd (TokenOptions_FormData (TokenOptions_zero\<lparr>TokenOptions.Scopes := Some [''openid'', ''profile'']\<rparr>))
     ''scope'' = Some ''openid profile''"
  using TokenOptions_FormData_singular[of
      "TokenOptions_zero\<lparr>TokenOptions.Scopes := Some [''openid'', ''profile'']\<rparr>"]
  by (simp add: TokenOptions_zero_def NilOrEmptySlice_def elems_def)

text \<open>
  C5 as stated fails: with Scopes \<^verbatim>\<open>a\<close>, \<^verbatim>\<open>b\<close> and the explicit Scope \<^verbatim>\<open>x\<close> the entry is
  \<^verbatim>\<open>a b\<close>, so the explicit value is overwritten; and with ResponseTypes holding one empty
  string, a non-empty list, the \<^verbatim>\<open>response_type\<close> entry is \<^verbatim>\<open>token\<close>, not the join, also when
  ResponseType has the explicit value \<^verbatim>\<open>code\<close>.
\<close>

theorem TokenOptions_FormData_singular_counterexample:
  "snd (TokenOptions_FormData
          (TokenOptions_zero\<lparr>TokenOptions.Scopes := Some [''a'', ''b''],
                             TokenOptions.Scope := Some ''x''\<rparr>)) ''scope'' = Some ''a b''
   \<and> snd (TokenOptions_FormData
          (TokenOptions_zero\<lparr>TokenOptions.ResponseTypes := Some [[]]\<rparr>)) ''response_type''
       = Some ''token''
   \<and> snd (TokenOptions_FormData
          (TokenOptions_zero\<lparr>TokenOptions.ResponseTypes := Some [[]],
                             TokenOptions.ResponseType := Some ''code''\<rparr>)) ''response_type''
       = Some ''token''"
  by (simp add: TokenOptions_FormData_map TokenOptions_lookup)
     (simp add: TokenOptions_FormData_def TokenOptions_zero_def NilOrEmptySlice_def NilOrEmpty_def
       StringP_def elems_def Let_def)



section \<open>\<^verbatim>\<open>models.go\<close>: PolicyRepresentation\<close>

text \<open>
  The policy record and the structs embedded in it. A pointer to a slice is \<open>None\<close> when nil
  and \<open>Some xs\<close> otherwise (an empty and a nil slice behind a pointer are both \<open>Some []\<close>:
  ToConfig reads their length only). \<^verbatim>\<open>DecisionStrategy\<close> and \<^verbatim>\<open>Logic\<close> are string types.
\<close>

record RoleDefinition =
  ID :: "string option"
  Private :: "bool option"
  Required :: "bool option"

record GroupDefinition =
  ID :: "string option"
  Path :: "string option"
  ExtendChildren :: "bool option"

record RolePolicyRepresentation =
  Roles :: "RoleDefinition list option"

record JSPolicyRepresentation =
  Code :: "string option"

record ClientPolicyRepresentation =
  Clients :: "string list option"

record TimePolicyRepresentation =
  NotBefore :: "string option"
  NotOnOrAfter :: "string option"
  DayMonth :: "string option"
  DayMonthEnd :: "string option"
  Month :: "string option"
  MonthEnd :: "string option"
  Year :: "string option"
  YearEnd :: "string option"
  Hour :: "string option"
  HourEnd :: "string option"
  Minute :: "string option"
  MinuteEnd :: "string option"

record UserPolicyRepresentation =
  Users :: "string list option"

record AggregatedPolicyRepresentation =
  Policies :: "string list option"

record GroupPolicyRepresentation =
  Groups :: "GroupDefinition list option"
  GroupsClaim :: "string option"

text \<open>
  A Go map is a reference to a table, shared by everyone who holds the map. The tables live in
  a store: a content for every address, and the first address not handed out yet; \<open>new\<close> is an
  allocation and \<open>put\<close> a write to an address. A map is \<open>None\<close> when it is the nil map, which
  panics on an assignment, and \<open>Some a\<close> when it refers to the table at address \<open>a\<close>.
  \<^verbatim>\<open>Config\<close> is a pointer to a variable that holds a map; ToConfig reads that variable and
  never assigns to it, so the field is \<open>None\<close> for the nil pointer and otherwise the map that
  the variable holds.
\<close>

type_synonym addr = nat

record 'v store =
  cell :: "addr \<Rightarrow> 'v"
  free :: addr

definition new :: "'v \<Rightarrow> 'v store \<Rightarrow> addr \<times> 'v store" where
  "new v s = (free s, \<lparr>cell = (cell s)(free s := v), free = Suc (free s)\<rparr>)"

definition put :: "addr \<Rightarrow> 'v \<Rightarrow> 'v store \<Rightarrow> 'v store" where
  "put a v s = s\<lparr>cell := (cell s)(a := v)\<rparr>"

type_synonym gomap = "addr option"

type_synonym tables = "(string \<rightharpoonup> string) store"

record PolicyRepresentation =
  Config :: "gomap option"
  DecisionStrategy :: "string option"
  Description :: "string option"
  ID :: "string option"
  Logic :: "string option"
  Name :: "string option"
  Owner :: "string option"
  Policies :: "string list option"
  Resources :: "string list option"
  Scopes :: "string list option"
  Type :: "string option"
  RolePolicyRepresentation :: RolePolicyRepresentation
  JSPolicyRepresentation :: JSPolicyRepresentation
  ClientPolicyRepresentation :: ClientPolicyRepresentation
  TimePolicyRepresentation :: TimePolicyRepresentation
  UserPolicyRepresentation :: UserPolicyRepresentation
  AggregatedPolicyRepresentation :: AggregatedPolicyRepresentation
  GroupPolicyRepresentation :: GroupPolicyRepresentation

text \<open>
  \<^verbatim>\<open>fmt.Sprintf\<close> with the formats of ToConfig: a string between quotes, \<^verbatim>\<open>%t\<close> of a bool, and
  the joined elements between brackets.
\<close>

definition in_quotes :: "string \<Rightarrow> string" where
  "in_quotes s = [dquote] @ s @ [dquote]"

definition fmt_bool :: "bool \<Rightarrow> string" where
  "fmt_bool b = (if b then ''true'' else ''false'')"

definition in_brackets :: "string list \<Rightarrow> string" where
  "in_brackets xs = ''['' @ join xs '','' @ '']''"

text \<open>
  The loop bodies over \<^verbatim>\<open>Roles\<close> and \<^verbatim>\<open>Groups\<close>: the slot \<^verbatim>\<open>roles[i]\<close> of a role. The slice
  is made with one slot per role, so the slot of a role with no id keeps the empty string.
\<close>

definition role_entry :: "RoleDefinition \<Rightarrow> string" where
  "role_entry role =
     (if RoleDefinition.ID role \<noteq> None then
        ''{'' @ in_quotes ''id'' @ '':'' @ in_quotes (the (RoleDefinition.ID role)) @ '',''
          @ in_quotes ''required'' @ '':''
          @ fmt_bool (RoleDefinition.Required role \<noteq> None \<and> the (RoleDefinition.Required role))
          @ ''}''
      else [])"

definition group_entry :: "GroupDefinition \<Rightarrow> string" where
  "group_entry grp =
     (if GroupDefinition.ID grp \<noteq> None then
        (let required =
               (if GroupDefinition.ExtendChildren grp \<noteq> None \<and> the (GroupDefinition.ExtendChildren grp)
                then ''true'' else ''false'')
         in ''{'' @ in_quotes ''id'' @ '':'' @ in_quotes (the (GroupDefinition.ID grp)) @ '',''
              @ in_quotes ''extendChildren'' @ '':'' @ required @ ''}'')
      else [])"

text \<open>
  The body of ToConfig is a sequence of guarded assignments \<^verbatim>\<open>config[key] = value\<close>.
  \<open>ToConfig_assignments p\<close> are the assignments it executes, in order.
\<close>

definition assign_if :: "bool \<Rightarrow> string \<Rightarrow> string \<Rightarrow> (string \<times> string) list" where
  "assign_if c k v = (if c then [(k, v)] else [])"

definition assign_set :: "string \<Rightarrow> string option \<Rightarrow> (string \<times> string) list" where
  "assign_set k v = (case v of None \<Rightarrow> [] | Some x \<Rightarrow> [(k, x)])"

definition ToConfig_assignments :: "PolicyRepresentation \<Rightarrow> (string \<times> string) list" where
  "ToConfig_assignments p =
     assign_if (Clients (ClientPolicyRepresentation p) \<noteq> None
                \<and> len (Clients (ClientPolicyRepresentation p)) > 0)
       ''clients'' (in_brackets (map in_quotes (elems (Clients (ClientPolicyRepresentation p)))))
   @ assign_if (Roles (RolePolicyRepresentation p) \<noteq> None
                \<and> len (Roles (RolePolicyRepresentation p)) > 0)
       ''roles'' (in_brackets (map role_entry (elems (Roles (RolePolicyRepresentation p)))))
   @ assign_set ''code'' (JSPolicyRepresentation.Code (JSPolicyRepresentation p))
   @ assign_if (Users (UserPolicyRepresentation p) \<noteq> None
                \<and> len (Users (UserPolicyRepresentation p)) > 0)
       ''users'' (in_brackets (map in_quotes (elems (Users (UserPolicyRepresentation p)))))
   @ assign_if (AggregatedPolicyRepresentation.Policies (AggregatedPolicyRepresentation p) \<noteq> None
                \<and> len (AggregatedPolicyRepresentation.Policies (AggregatedPolicyRepresentation p)) > 0)
       ''applyPolicies''
       (in_brackets (map in_quotes
          (elems (AggregatedPolicyRepresentation.Policies (AggregatedPolicyRepresentation p)))))
   @ assign_if (Groups (GroupPolicyRepresentation p) \<noteq> None
                \<and> len (Groups (GroupPolicyRepresentation p)) > 0)
       ''groups'' (in_brackets (map group_entry (elems (Groups (GroupPolicyRepresentation p)))))
   @ assign_set ''groupsClaim'' (GroupsClaim (GroupPolicyRepresentation p))
   @ assign_set ''nbf'' (NotBefore (TimePolicyRepresentation p))
   @ assign_set ''noa'' (NotOnOrAfter (TimePolicyRepresentation p))
   @ assign_set ''dayMonth'' (DayMonth (TimePolicyRepresentation p))
   @ assign_set ''dayMonthEnd'' (DayMonthEnd (TimePolicyRepresentation p))
   @ assign_set ''month'' (Month (TimePolicyRepresentation p))
   @ assign_set ''monthEnd'' (MonthEnd (TimePolicyRepresentation p))
   @ assign_set ''year'' (Year (TimePolicyRepresentation p))
   @ assign_set ''yearEnd'' (YearEnd (TimePolicyRepresentation p))
   @ assign_set ''hour'' (Hour (TimePolicyRepresentation p))
   @ assign_set ''hourEnd'' (HourEnd (TimePolicyRepresentation p))
   @ assign_set ''minute'' (Minute (TimePolicyRepresentation p))
   @ assign_set ''minuteEnd'' (MinuteEnd (TimePolicyRepresentation p))"

text \<open>
  The assignments, executed on the map \<^verbatim>\<open>config\<close>: each one writes to the table the map refers
  to, and the first one panics on a nil map.
\<close>

fun assign_all :: "(string \<times> string) list \<Rightarrow> gomap \<Rightarrow> tables \<Rightarrow> panic + tables" where
  "assign_all [] config mem = Inr mem"
| "assign_all ((k, v) # kvs) config mem =
     (case config of
        None \<Rightarrow> Inl NilMapAssignment
      | Some a \<Rightarrow> assign_all kvs config (put a ((cell mem a)(k \<mapsto> v)) mem))"

text \<open>
  \<^verbatim>\<open>func (p *PolicyRepresentation) ToConfig()\<close>. The receiver is a pointer and nothing is
  returned: the result is the struct \<^verbatim>\<open>*p\<close> and the tables after the call, or the panic.
  \<^verbatim>\<open>p.Config = &map[string]string{}\<close> makes a new, empty table; \<^verbatim>\<open>config := *p.Config\<close> copies
  the reference, not the table, so the assignments to \<^verbatim>\<open>config\<close> write to the table that
  \<^verbatim>\<open>p.Config\<close> leads to.
\<close>

definition ToConfig :: "PolicyRepresentation \<Rightarrow> tables \<Rightarrow> panic + PolicyRepresentation \<times> tables" where
  "ToConfig p0 mem0 =
     (let (p, mem) =
            (if Config p0 = None
             then (let (a, mem1) = new Map.empty mem0 in (p0\<lparr>Config := Some (Some a)\<rparr>, mem1))
             else (p0, mem0));
          config = the (Config p)
      in case assign_all (ToConfig_assignments p) config mem of
           Inl panic \<Rightarrow> Inl panic
         | Inr mem' \<Rightarrow> Inr (p, mem'))"

text \<open>The zero value \<^verbatim>\<open>PolicyRepresentation{}\<close>.\<close>

definition PolicyRepresentation_zero :: PolicyRepresentation where
  "PolicyRepresentation_zero =
     \<lparr>Config = None, DecisionStrategy = None, Description = None, ID = None, Logic = None,
      Name = None, Owner = None, Policies = None, Resources = None, Scopes = None, Type = None,
      RolePolicyRepresentation = \<lparr>Roles = None\<rparr>,
      JSPolicyRepresentation = \<lparr>Code = None\<rparr>,
      ClientPolicyRepresentation = \<lparr>Clients = None\<rparr>,
      TimePolicyRepresentation =
        \<lparr>NotBefore = None, NotOnOrAfter = None, DayMonth = None, DayMonthEnd = None, Month = None,
         MonthEnd = None, Year = None, YearEnd = None, Hour = None, HourEnd = None, Minute = None,
         MinuteEnd = None\<rparr>,
      UserPolicyRepresentation = \<lparr>Users = None\<rparr>,
      AggregatedPolicyRepresentation = \<lparr>AggregatedPolicyRepresentation.Policies = None\<rparr>,
      GroupPolicyRepresentation = \<lparr>Groups = None, GroupsClaim = None\<rparr>\<rparr>"

text \<open>
  Tables for the examples: no table handed out yet, and one table, at address 0, that holds
  the entry \<^verbatim>\<open>"clients": ["c1"]\<close>.
\<close>

definition no_tables :: tables where
  "no_tables = \<lparr>cell = (\<lambda>a. Map.empty), free = 0\<rparr>"

definition one_table :: tables where
  "one_table = snd (new [''clients'' \<mapsto> ''['' @ in_quotes ''c1'' @ '']''] no_tables)"

text \<open>The role list \<^verbatim>\<open>[{id: "r1", required: true}, {id: "r2"}]\<close>.\<close>

definition example_roles :: "RoleDefinition list" where
  "example_roles =
     [\<lparr>RoleDefinition.ID = Some ''r1'', Private = None, Required = Some True\<rparr>,
      \<lparr>RoleDefinition.ID = Some ''r2'', Private = None, Required = None\<rparr>]"

text \<open>The text \<^verbatim>\<open>[{"id":"r1","required":true},{"id":"r2","required":false}]\<close>.\<close>

definition example_roles_text :: string where
  "example_roles_text =
     ''[{'' @ in_quotes ''id'' @ '':'' @ in_quotes ''r1'' @ '','' @ in_quotes ''required''
       @ '':true},{'' @ in_quotes ''id'' @ '':'' @ in_quotes ''r2'' @ '',''
       @ in_quotes ''required'' @ '':false}]''"



subsection \<open>What ToConfig leaves in the config bag\<close>

lemma put_put [simp]: "put a v (put a w s) = put a v s"
  by (simp add: put_def)

lemma cell_put: "cell (put a v s) a = v" "b \<noteq> a \<Longrightarrow> cell (put a v s) b = cell s b"
  by (simp_all add: put_def)

lemma free_put [simp]: "free (put a v s) = free s"
  by (simp add: put_def)

lemma put_same [simp]: "put a (cell s a) s = s"
  by (simp add: put_def)

lemma assign_all_Some:
  "assign_all kvs (Some a) mem = Inr (put a (cell mem a ++ map_of (rev kvs)) mem)"
proof (induction kvs arbitrary: mem)
  case Nil
  then show ?case by simp
next
  case (Cons kv kvs)
  obtain k v where kv: "kv = (k, v)" by (cases kv)
  have eq: "(cell mem a)(k \<mapsto> v) ++ map_of (rev kvs) = cell mem a ++ map_of (rev (kv # kvs))"
    by (auto simp: kv fun_eq_iff map_add_def split: option.splits)
  have "assign_all (kv # kvs) (Some a) mem
          = assign_all kvs (Some a) (put a ((cell mem a)(k \<mapsto> v)) mem)"
    by (simp add: kv)
  also have "\<dots> = Inr (put a (cell (put a ((cell mem a)(k \<mapsto> v)) mem) a ++ map_of (rev kvs))
                        (put a ((cell mem a)(k \<mapsto> v)) mem))"
    by (rule Cons.IH)
  also have "\<dots> = Inr (put a ((cell mem a)(k \<mapsto> v) ++ map_of (rev kvs)) mem)"
    by (simp only: cell_put(1) put_put)
  also have "\<dots> = Inr (put a (cell mem a ++ map_of (rev (kv # kvs))) mem)"
    by (simp only: eq)
  finally show ?case .
qed

lemma assign_all_None:
  "assign_all kvs None mem = (if kvs = [] then Inr mem else Inl NilMapAssignment)"
  by (cases kvs) auto

lemma ToConfig_assignments_Config [simp]:
  "ToConfig_assignments (p\<lparr>Config := c\<rparr>) = ToConfig_assignments p"
  by (simp add: ToConfig_assignments_def)

lemma map_add_twice: "(m ++ f) ++ f = m ++ f"
  by (auto simp: fun_eq_iff map_add_def split: option.splits)

text \<open>
  ToConfig by the three states of \<^verbatim>\<open>Config\<close>. A nil pointer: the receiver gets a pointer to
  a new table, which holds the entries assigned. A pointer to a nil map: a panic at the first
  assignment. A pointer to a map: the receiver stays as it is and the entries are written to the
  table of that map.
\<close>

lemma ToConfig_cases:
  "ToConfig p mem =
     (case Config p of
        None \<Rightarrow> Inr (p\<lparr>Config := Some (Some (free mem))\<rparr>,
                     \<lparr>cell = (cell mem)(free mem := map_of (rev (ToConfig_assignments p))),
                      free = Suc (free mem)\<rparr>)
      | Some None \<Rightarrow> if ToConfig_assignments p = [] then Inr (p, mem) else Inl NilMapAssignment
      | Some (Some a) \<Rightarrow> Inr (p, put a (cell mem a ++ map_of (rev (ToConfig_assignments p))) mem))"
proof (cases "Config p")
  case None
  then show ?thesis
    by (simp add: ToConfig_def Let_def new_def assign_all_Some put_def)
next
  case (Some c)
  show ?thesis
  proof (cases c)
    case None
    then show ?thesis using Some
      by (simp add: ToConfig_def Let_def assign_all_None)
  next
    case (Some a)
    then show ?thesis using \<open>Config p = Some c\<close>
      by (simp add: ToConfig_def Let_def assign_all_Some)
  qed
qed

lemma ToConfig_idempotent:
  "ToConfig p mem = Inr (p', mem') \<Longrightarrow> ToConfig p' mem' = Inr (p', mem')"
proof (cases "Config p")
  case None
  assume a: "ToConfig p mem = Inr (p', mem')"
  have p': "p' = p\<lparr>Config := Some (Some (free mem))\<rparr>"
    and mem': "mem' = \<lparr>cell = (cell mem)(free mem := map_of (rev (ToConfig_assignments p))),
                      free = Suc (free mem)\<rparr>"
    using a None by (simp_all add: ToConfig_cases)
  show ?thesis
    by (simp add: p' mem' ToConfig_cases put_def map_add_twice[of Map.empty, simplified])
next
  case (Some c)
  assume a: "ToConfig p mem = Inr (p', mem')"
  show ?thesis
  proof (cases c)
    case None
    then have "p' = p" "mem' = mem"
      using a Some by (simp_all add: ToConfig_cases split: if_splits)
    then show ?thesis using a by simp
  next
    case (Some a')
    have p': "p' = p"
      and mem': "mem' = put a' (cell mem a' ++ map_of (rev (ToConfig_assignments p))) mem"
      using a Some \<open>Config p = Some c\<close> by (auto simp: ToConfig_cases)
    have "ToConfig p' mem' = Inr (p', put a' (cell mem' a' ++ map_of (rev (ToConfig_assignments p))) mem')"
      using Some \<open>Config p = Some c\<close> by (simp add: p' ToConfig_cases)
    also have "put a' (cell mem' a' ++ map_of (rev (ToConfig_assignments p))) mem' = mem'"
      by (simp only: mem' cell_put(1) put_put map_add_twice)
    finally show ?thesis .
  qed
qed

lemma ToConfig_returns: "Config p \<noteq> Some None \<Longrightarrow> \<exists>p' mem'. ToConfig p mem = Inr (p', mem')"
  by (cases "Config p"; cases "the (Config p)") (auto simp: ToConfig_cases)

text \<open>
  C4. The assignments ToConfig executes do not depend on the config bag; ToConfig returns
  whenever \<^verbatim>\<open>Config\<close> is not a pointer to a nil map; and whenever ToConfig returns, running it
  again on the policy and the tables it left returns the same policy and the same tables, so
  the same config bag.
\<close>

theorem ToConfig_twice:
  "ToConfig_assignments (p\<lparr>Config := c\<rparr>) = ToConfig_assignments p
   \<and> (Config p \<noteq> Some None \<longrightarrow> (\<exists>p' mem'. ToConfig p mem = Inr (p', mem')))
   \<and> (\<forall>p' mem'. ToConfig p mem = Inr (p', mem') \<longrightarrow> ToConfig p' mem' = Inr (p', mem'))"
  using ToConfig_returns[of p mem] ToConfig_idempotent[of p mem] by simp

text \<open>
  The entries of the config bag of a policy (none when \<^verbatim>\<open>Config\<close> is nil or points to a nil
  map), and of the policy a call of ToConfig left (none after a panic).
\<close>

definition config_entries :: "PolicyRepresentation \<Rightarrow> tables \<Rightarrow> (string \<rightharpoonup> string)" where
  "config_entries p mem = (case Config p of Some (Some a) \<Rightarrow> cell mem a | _ \<Rightarrow> Map.empty)"

definition result_config :: "panic + PolicyRepresentation \<times> tables \<Rightarrow> (string \<rightharpoonup> string)" where
  "result_config r = (case r of Inl _ \<Rightarrow> Map.empty | Inr (p, mem) \<Rightarrow> config_entries p mem)"

lemma map_of_rev_assign [simp]:
  "map_of (rev (assign_if c k' v)) k = (if c \<and> k = k' then Some v else None)"
  "map_of (rev (assign_set k' x)) k = (if k = k' then x else None)"
  by (auto simp: assign_if_def assign_set_def split: option.splits)

lemma map_of_rev_append: "map_of (rev (xs @ ys)) k = (case map_of (rev ys) k of None \<Rightarrow> map_of (rev xs) k | Some v \<Rightarrow> Some v)"
  by (simp add: map_add_def)

lemma ToConfig_assignments_roles:
  "map_of (rev (ToConfig_assignments p)) ''roles''
     = (if Roles (RolePolicyRepresentation p) \<noteq> None \<and> len (Roles (RolePolicyRepresentation p)) > 0
        then Some (in_brackets (map role_entry (elems (Roles (RolePolicyRepresentation p))))) else None)"
  unfolding ToConfig_assignments_def
  by (simp add: map_of_rev_append del: rev_append)

lemma ToConfig_assignments_clients:
  "map_of (rev (ToConfig_assignments p)) ''clients''
     = (if Clients (ClientPolicyRepresentation p) \<noteq> None \<and> len (Clients (ClientPolicyRepresentation p)) > 0
        then Some (in_brackets (map in_quotes (elems (Clients (ClientPolicyRepresentation p))))) else None)"
  unfolding ToConfig_assignments_def
  by (simp add: map_of_rev_append del: rev_append)

lemma result_config_ToConfig:
  "Config p \<noteq> Some None \<Longrightarrow>
   result_config (ToConfig p mem) = config_entries p mem ++ map_of (rev (ToConfig_assignments p))"
  by (cases "Config p"; cases "the (Config p)")
     (auto simp: ToConfig_cases result_config_def config_entries_def put_def)

lemma role_entry_with_id:
  "RoleDefinition.ID role \<noteq> None \<Longrightarrow>
   role_entry role =
     ''{'' @ in_quotes ''id'' @ '':'' @ in_quotes (the (RoleDefinition.ID role)) @ '',''
       @ in_quotes ''required'' @ '':''
       @ (if RoleDefinition.Required role = Some True then ''true'' else ''false'') @ ''}''"
  by (cases "RoleDefinition.Required role") (auto simp: role_entry_def fmt_bool_def)

text \<open>
  C2, as the code has it. For every policy whose role list is non-empty and whose roles all
  have an id, and whose \<^verbatim>\<open>Config\<close> is not a pointer to a nil map: ToConfig returns, and the
  config bag holds under \<^verbatim>\<open>roles\<close> the array literal of the objects
  \<^verbatim>\<open>{"id":"<id>","required":<bool>}\<close> in source order, the bool being \<^verbatim>\<open>true\<close> only when
  \<^verbatim>\<open>Required\<close> is set and true. When the client list is nil or empty ToConfig does not touch
  the key \<^verbatim>\<open>clients\<close>: it is absent afterwards if it was absent before.
\<close>

theorem ToConfig_roles:
  assumes "Roles (RolePolicyRepresentation p) = Some roles" and "roles \<noteq> []"
    and "list_all (\<lambda>role. RoleDefinition.ID role \<noteq> None) roles"
    and "Config p \<noteq> Some None"
  shows "\<exists>p' mem'. ToConfig p mem = Inr (p', mem')
           \<and> result_config (ToConfig p mem) ''roles''
               = Some (''['' @ join (map (\<lambda>role.
                     ''{'' @ in_quotes ''id'' @ '':'' @ in_quotes (the (RoleDefinition.ID role)) @ '',''
                       @ in_quotes ''required'' @ '':''
                       @ (if RoleDefinition.Required role = Some True then ''true'' else ''false'')
                       @ ''}'') roles) '','' @ '']'')
           \<and> (len (Clients (ClientPolicyRepresentation p)) = 0 \<longrightarrow>
                result_config (ToConfig p mem) ''clients'' = config_entries p mem ''clients'')"
proof -
  have e: "map role_entry roles = map (\<lambda>role.
                     ''{'' @ in_quotes ''id'' @ '':'' @ in_quotes (the (RoleDefinition.ID role)) @ '',''
                       @ in_quotes ''required'' @ '':''
                       @ (if RoleDefinition.Required role = Some True then ''true'' else ''false'')
                       @ ''}'') roles"
    using assms(3) by (induction roles) (simp_all add: role_entry_with_id)
  have r: "result_config (ToConfig p mem) ''roles'' = Some (in_brackets (map role_entry roles))"
    using assms(1,2)
    by (simp add: result_config_ToConfig[OF assms(4)] map_add_def ToConfig_assignments_roles
        len_def elems_def)
  have c: "len (Clients (ClientPolicyRepresentation p)) = 0 \<Longrightarrow>
        result_config (ToConfig p mem) ''clients'' = config_entries p mem ''clients''"
    by (simp add: result_config_ToConfig[OF assms(4)] map_add_def ToConfig_assignments_clients)
  obtain p' mem' where "ToConfig p mem = Inr (p', mem')"
    using ToConfig_returns[OF assms(4)] by blast
  then show ?thesis
    using r c e by (simp add: in_brackets_def)
qed

text \<open>
  For this role list and nothing else set, and no table made yet, \<^verbatim>\<open>config["roles"]\<close> is the
  text \<^verbatim>\<open>[{"id":"r1","required":true},{"id":"r2","required":false}]\<close> and \<^verbatim>\<open>config["clients"]\<close>
  is absent.
\<close>

theorem ToConfig_roles_witness:
  "result_config
     (ToConfig (PolicyRepresentation_zero\<lparr>RolePolicyRepresentation := \<lparr>Roles = Some example_roles\<rparr>\<rparr>)
        no_tables)
     ''roles''
     = Some (''[{'' @ in_quotes ''id'' @ '':'' @ in_quotes ''r1'' @ '','' @ in_quotes ''required''
             @ '':true},{'' @ in_quotes ''id'' @ '':'' @ in_quotes ''r2'' @ '',''
             @ in_quotes ''required'' @ '':false}]'')
   \<and> result_config
     (ToConfig (PolicyRepresentation_zero\<lparr>RolePolicyRepresentation := \<lparr>Roles = Some example_roles\<rparr>\<rparr>)
        no_tables)
     ''clients'' = None"
  using ToConfig_roles[where roles = example_roles and mem = no_tables and
      p = "PolicyRepresentation_zero\<lparr>RolePolicyRepresentation := \<lparr>Roles = Some example_roles\<rparr>\<rparr>"]
  by (simp add: PolicyRepresentation_zero_def example_roles_def len_def config_entries_def
      in_quotes_def)

text \<open>
  C2 as stated fails for a policy whose config bag already has the key \<^verbatim>\<open>clients\<close>: with no
  client list, \<^verbatim>\<open>config["clients"]\<close> is still there after ToConfig.
\<close>

theorem ToConfig_roles_counterexample:
  "Clients (ClientPolicyRepresentation
     (PolicyRepresentation_zero
        \<lparr>Config := Some (Some 0),
         RolePolicyRepresentation := \<lparr>Roles = Some example_roles\<rparr>\<rparr>)) = None
   \<and> result_config
     (ToConfig (PolicyRepresentation_zero
        \<lparr>Config := Some (Some 0),
         RolePolicyRepresentation := \<lparr>Roles = Some example_roles\<rparr>\<rparr>) one_table)
     ''clients'' = Some (''['' @ in_quotes ''c1'' @ '']'')"
  by (simp add: result_config_ToConfig map_add_def ToConfig_assignments_clients config_entries_def
      PolicyRepresentation_zero_def one_table_def no_tables_def new_def)

text \<open>
  A role with no id is not dropped from the array: its slot stays empty, between the commas.
  For a role with no id followed by the role \<^verbatim>\<open>r2\<close> the text is
  \<^verbatim>\<open>[,{"id":"r2","required":false}]\<close>.
\<close>

lemma ToConfig_role_without_id:
  "result_config
     (ToConfig (PolicyRepresentation_zero\<lparr>RolePolicyRepresentation :=
        \<lparr>Roles = Some [\<lparr>RoleDefinition.ID = None, Private = None, Required = None\<rparr>,
                       \<lparr>RoleDefinition.ID = Some ''r2'', Private = None, Required = None\<rparr>]\<rparr>\<rparr>)
        no_tables)
     ''roles''
     = Some (''[,{'' @ in_quotes ''id'' @ '':'' @ in_quotes ''r2'' @ '','' @ in_quotes ''required''
             @ '':false}]'')"
  by (simp add: result_config_ToConfig map_add_def ToConfig_assignments_roles
      PolicyRepresentation_zero_def len_def elems_def in_brackets_def role_entry_def fmt_bool_def
      in_quotes_def)

text \<open>
  A policy with the role list above whose \<^verbatim>\<open>Config\<close> points to the map at address 0, and the
  bag ToConfig leaves there when the table held \<^verbatim>\<open>"clients": ["c1"]\<close>.
\<close>

definition example_policy :: PolicyRepresentation where
  "example_policy =
     PolicyRepresentation_zero
       \<lparr>Config := Some (Some 0), RolePolicyRepresentation := \<lparr>Roles = Some example_roles\<rparr>\<rparr>"

definition example_bag :: "string \<rightharpoonup> string" where
  "example_bag =
     [''clients'' \<mapsto> ''['' @ in_quotes ''c1'' @ '']'', ''roles'' \<mapsto> example_roles_text]"

lemma ToConfig_example: "ToConfig example_policy one_table = Inr (example_policy, put 0 example_bag one_table)"
proof -
  have kvs: "ToConfig_assignments example_policy = [(''roles'', example_roles_text)]"
    by (simp add: ToConfig_assignments_def example_policy_def PolicyRepresentation_zero_def
        assign_if_def assign_set_def len_def elems_def example_roles_def example_roles_text_def
        in_brackets_def role_entry_def fmt_bool_def)
  have bag: "cell one_table 0 ++ map_of (rev [(''roles'', example_roles_text)]) = example_bag"
    by (auto simp: one_table_def no_tables_def new_def example_bag_def fun_eq_iff map_add_def)
  have "Config example_policy = Some (Some 0)"
    by (simp add: example_policy_def)
  then show ?thesis
    by (simp add: ToConfig_cases kvs bag del: map_of.simps rev.simps)
qed

text \<open>
  On that policy ToConfig writes the entry \<^verbatim>\<open>roles\<close> into the table, beside the entry
  \<^verbatim>\<open>clients\<close> it held, and a second run leaves policy and table as the first one left them.
\<close>

theorem ToConfig_twice_witness:
  "ToConfig example_policy one_table = Inr (example_policy, put 0 example_bag one_table)
   \<and> ToConfig example_policy (put 0 example_bag one_table)
       = Inr (example_policy, put 0 example_bag one_table)"
  using ToConfig_twice[where p = example_policy and mem = one_table] ToConfig_example
  by simp



section \<open>What the operations write\<close>


record GetGroupsParams_ptrs =
  BriefRepresentation :: "addr option"
  Exact :: "addr option"
  First :: "addr option"
  Full :: "addr option"
  Max :: "addr option"
  Q :: "addr option"
  Search :: "addr option"

definition deref :: "'v store \<Rightarrow> addr option \<Rightarrow> 'v option" where
  "deref s p = map_option (cell s) p"





text \<open>
  GetQueryParams in memory: the first argument is what \<^verbatim>\<open>json.Marshal\<close> does for the dynamic
  type of \<open>s\<close>, with the memory it leaves; \<^verbatim>\<open>json.Unmarshal\<close> writes to the local \<^verbatim>\<open>res\<close> only.
\<close>

definition GetQueryParams_mem ::
    "('a \<Rightarrow> 'h \<Rightarrow> (error + string) \<times> 'h) \<Rightarrow> 'a \<Rightarrow> 'h \<Rightarrow> (error + (string \<rightharpoonup> string)) \<times> 'h" where
  "GetQueryParams_mem json_Marshal s h0 =
     (let (r, h) = json_Marshal s h0 in
      case r of
        Inl err \<Rightarrow> (Inl err, h)
      | Inr b \<Rightarrow>
          (case json_Unmarshal_map b of
             Inl err \<Rightarrow> (Inl err, h)
           | Inr res \<Rightarrow> (Inr res, h)))"



lemma deref_None [simp]: "deref s None = None"
  by (simp add: deref_def)







lemma GetQueryParams_mem_map:
  "fst (GetQueryParams_mem json_Marshal s h) = GetQueryParams (\<lambda>s. fst (json_Marshal s h)) s"
  by (simp add: GetQueryParams_mem_def GetQueryParams_def split_def Let_def split: sum.splits)









end
